theory Spec2Isabelle
  imports Main "HOL-Library.Word"
begin

section \<open>Python values used by \<^verbatim>\<open>scripts/generate_golden.py\<close>\<close>

text \<open>
  A Python \<^verbatim>\<open>str\<close> is a sequence of Unicode code points, so \<^verbatim>\<open>len\<close> counts code
  points: it is modelled as a list of naturals. \<open>lit\<close> turns an ASCII literal into such
  a string. A \<^verbatim>\<open>bytes\<close> value (what ends up in a file) is a list of 8-bit words.
\<close>

type_synonym str = "nat list"
type_synonym bytes = "8 word list"

definition lit :: "string \<Rightarrow> str" where
  "lit cs = map of_char cs"

text \<open>
  Exceptions are values. \<open>LibraryError\<close> stands for whatever the external
  \<^verbatim>\<open>transformers\<close> library raises (its argument is the exception's name);
  \<open>FileNotFoundError\<close> is raised by \<^verbatim>\<open>open\<close> when the directory of the path is
  missing, \<open>UnicodeEncodeError\<close> by the text layer of a file when a character has no
  encoding in the file's codec.
\<close>

datatype error = LibraryError string | FileNotFoundError | UnicodeEncodeError

section \<open>The external tokenizer\<close>

text \<open>
  The tokenizer is not part of the repository: it is a parameter of the model. The script
  uses three of its operations:
  \<^item> \<^verbatim>\<open>AutoTokenizer.from_pretrained(name)\<close>, which returns a tokenizer or raises;
  \<^item> \<^verbatim>\<open>tok(text, return_offsets_mapping=b1, add_special_tokens=b2)\<close>, which returns an
    encoding with the keys \<^verbatim>\<open>input_ids\<close> and \<^verbatim>\<open>offset_mapping\<close>, or raises;
  \<^item> \<^verbatim>\<open>tok.convert_ids_to_tokens(ids)\<close>, which returns a list of strings, or raises.

  The script reads both keys of the encoding and always requests the offsets, so an
  encoding is a record with both fields. Nothing else is assumed of the three operations:
  what a property needs of them is written as a hypothesis of that property.
\<close>

record encoding =
  input_ids :: "int list"
  offset_mapping :: "(int \<times> int) list"

record tokenizer =
  tok_call :: "str \<Rightarrow> bool \<Rightarrow> bool \<Rightarrow> error + encoding"
  convert_ids_to_tokens :: "int list \<Rightarrow> error + str list"

type_synonym from_pretrained = "string \<Rightarrow> error + tokenizer"

section \<open>The world the script runs in\<close>

text \<open>
  The platform decides two things that the script leaves open, because it calls
  \<^verbatim>\<open>open(path, "w")\<close> with neither \<^verbatim>\<open>encoding=\<close> nor \<^verbatim>\<open>newline=\<close>: the codec of
  the text layer (the locale's preferred encoding) and the line separator that every
  written \<^verbatim>\<open>"\n"\<close> is translated to.
\<close>

text \<open>
  Four codecs are named: UTF-8, Latin-1, ASCII and the Windows code page 1252. Any other
  codec that encodes a text character by character (GB 18030, UTF-16 without a byte order
  mark, another code page) is a \<open>Charmap\<close>, given by the bytes of each character it can
  encode. No property below depends on which codecs there are.
\<close>

datatype codec = UTF8 | Latin1 | ASCII | CP1252 | Charmap "nat \<Rightarrow> 8 word list option"

record platform =
  preferred_encoding :: codec
  linesep :: str

text \<open>
  A file holds bytes. \<open>Partial\<close> is the content of a file whose write was aborted by an
  exception: some prefix of the data, which the model does not pin down.
\<close>

datatype content = Data bytes | Partial

text \<open>
  \<open>calls\<close> is a ghost log of the calls the script makes to the outside (library and
  \<^verbatim>\<open>open\<close>), in order; \<open>stdout\<close> holds the lines printed.
\<close>

datatype call =
    FromPretrained string
  | TokCall str bool bool
  | ConvertIdsToTokens "int list"
  | OpenFile string string

record world =
  dirs :: "string set"
  files :: "string \<rightharpoonup> content"
  stdout :: "str list"
  calls :: "call list"

definition log :: "call \<Rightarrow> world \<Rightarrow> world" where
  "log c w = w\<lparr>calls := calls w @ [c]\<rparr>"

section \<open>The golden records and the loop that builds them\<close>

text \<open>The dictionary appended to \<^verbatim>\<open>results\<close> (lines 27 to 32), with its four keys.\<close>

record golden =
  input :: str
  token_ids :: "int list"
  offsets :: "(int \<times> int) list"
  tokens :: "str list"

text \<open>
  The fixed list of lines 10 to 22. The last three strings are given by their code points,
  as the literals stand in the source file: \<^verbatim>\<open>U+00C3 U+00A9\<close> after \<^verbatim>\<open>caf\<close>, twelve
  characters for the line marked Chinese and four for the line marked emoji.
\<close>

definition test_cases :: "str list" where
  "test_cases =
    [ lit ''Hello'',
      lit ''Hello world'',
      lit ''Hello world.'',
      lit ''I want to'',
      lit ''Thank you very much.'',
      lit ''This is a test sentence.'',
      lit ''The quick brown fox jumps over the lazy dog.'',
      [],
      lit ''caf'' @ [195, 169],
      [228, 189, 160, 229, 165, 189, 228, 184, 8211, 231, 8226, 338],
      [240, 376, 381, 8240] ]"

text \<open>
  The \<^verbatim>\<open>for\<close> loop of lines 25 to 32: \<open>results\<close> is the list built so far. An exception
  of either library call leaves the loop at once.
\<close>

fun main_loop ::
  "tokenizer \<Rightarrow> str list \<Rightarrow> golden list \<Rightarrow> world \<Rightarrow> (error + golden list) \<times> world" where
  "main_loop tok [] results w = (Inr results, w)"
| "main_loop tok (text # rest) results w =
     (let w1 = log (TokCall text True False) w in
      case tok_call tok text True False of
        Inl e \<Rightarrow> (Inl e, w1)
      | Inr enc \<Rightarrow>
          (let w2 = log (ConvertIdsToTokens (input_ids enc)) w1 in
           case convert_ids_to_tokens tok (input_ids enc) of
             Inl e \<Rightarrow> (Inl e, w2)
           | Inr ts \<Rightarrow>
               main_loop tok rest
                 (results @ [\<lparr>input = text, token_ids = input_ids enc,
                              offsets = offset_mapping enc, tokens = ts\<rparr>]) w2))"

section \<open>\<^verbatim>\<open>json.dump(results, f, indent=2, ensure_ascii=False)\<close>\<close>

text \<open>The Python objects that reach the JSON encoder.\<close>

datatype pyobj = PStr str | PInt int | PList "pyobj list" | PDict "(str \<times> pyobj) list"

definition golden_obj :: "golden \<Rightarrow> pyobj" where
  "golden_obj r =
     PDict [ (lit ''input'', PStr (input r)),
            (lit ''token_ids'', PList (map PInt (token_ids r))),
            (lit ''offsets'', PList (map (\<lambda>p. PList [PInt (fst p), PInt (snd p)]) (offsets r))),
            (lit ''tokens'', PList (map PStr (tokens r))) ]"

definition results_obj :: "golden list \<Rightarrow> pyobj" where
  "results_obj results = PList (map golden_obj results)"

text \<open>Decimal digits of a natural number, and \<^verbatim>\<open>str(i)\<close> for an integer.\<close>

fun nat_str :: "nat \<Rightarrow> str" where
  "nat_str n = (if n < 10 then [48 + n] else nat_str (n div 10) @ [48 + n mod 10])"

definition int_str :: "int \<Rightarrow> str" where
  "int_str i = (if i < 0 then 45 # nat_str (nat (- i)) else nat_str (nat i))"

text \<open>
  \<^verbatim>\<open>json.encoder.py_encode_basestring\<close>, the string encoder chosen when
  \<^verbatim>\<open>ensure_ascii\<close> is false: only the backslash, the double quote and the control
  characters below \<^verbatim>\<open>0x20\<close> are escaped; every other character is copied.
\<close>

definition hexdigit :: "nat \<Rightarrow> nat" where
  "hexdigit d = (if d < 10 then 48 + d else 87 + d)"

definition escape_char :: "nat \<Rightarrow> str" where
  "escape_char c =
     (if c = 92 then [92, 92]
      else if c = 34 then [92, 34]
      else if c = 8 then [92, 98]
      else if c = 12 then [92, 102]
      else if c = 10 then [92, 110]
      else if c = 13 then [92, 114]
      else if c = 9 then [92, 116]
      else if c < 32 then [92, 117, 48, 48, hexdigit (c div 16), hexdigit (c mod 16)]
      else [c])"

definition encode_basestring :: "str \<Rightarrow> str" where
  "encode_basestring s = [34] @ concat (map escape_char s) @ [34]"

text \<open>
  The text \<^verbatim>\<open>json.dump\<close> produces for an indent of \<open>ind\<close> spaces, at nesting depth
  \<open>lvl\<close>: an empty list is \<^verbatim>\<open>[]\<close>, an empty dictionary \<^verbatim>\<open>{}\<close>; otherwise each item
  stands on a line of its own, indented by \<open>ind\<close> spaces per level, items separated by
  a comma, a key from its value by a colon and a space.
\<close>

definition newline_indent :: "nat \<Rightarrow> nat \<Rightarrow> str" where
  "newline_indent ind lvl = 10 # replicate (ind * lvl) 32"

fun join :: "str \<Rightarrow> str list \<Rightarrow> str" where
  "join sep [] = []"
| "join sep [x] = x"
| "join sep (x # y # ys) = x @ sep @ join sep (y # ys)"

fun dumps :: "nat \<Rightarrow> nat \<Rightarrow> pyobj \<Rightarrow> str" where
  "dumps ind lvl (PStr s) = encode_basestring s"
| "dumps ind lvl (PInt i) = int_str i"
| "dumps ind lvl (PList xs) =
     (if xs = [] then lit ''[]''
      else [91] @ newline_indent ind (Suc lvl)
           @ join (44 # newline_indent ind (Suc lvl)) (map (dumps ind (Suc lvl)) xs)
           @ newline_indent ind lvl @ [93])"
| "dumps ind lvl (PDict kvs) =
     (if kvs = [] then lit ''{}''
      else [123] @ newline_indent ind (Suc lvl)
           @ join (44 # newline_indent ind (Suc lvl))
               (map (\<lambda>kv. encode_basestring (fst kv) @ [58, 32] @ dumps ind (Suc lvl) (snd kv)) kvs)
           @ newline_indent ind lvl @ [125])"

section \<open>Writing the file: \<^verbatim>\<open>open\<close>, the text layer, \<^verbatim>\<open>print\<close>\<close>

text \<open>
  \<^verbatim>\<open>str.encode\<close> in strict mode, one character at a time. UTF-8 has no encoding for a
  surrogate (\<^verbatim>\<open>U+D800\<close> to \<^verbatim>\<open>U+DFFF\<close>); numbers from \<^verbatim>\<open>0x110000\<close> on are no
  code points and are rejected as well.
\<close>

definition utf8_char :: "nat \<Rightarrow> error + bytes" where
  "utf8_char c =
     (if c < 128 then Inr [of_nat c]
      else if c < 2048 then Inr [of_nat (192 + c div 64), of_nat (128 + c mod 64)]
      else if 55296 \<le> c \<and> c < 57344 then Inl UnicodeEncodeError
      else if c < 65536 then
        Inr [of_nat (224 + c div 4096), of_nat (128 + c div 64 mod 64), of_nat (128 + c mod 64)]
      else if c < 1114112 then
        Inr [of_nat (240 + c div 262144), of_nat (128 + c div 4096 mod 64),
             of_nat (128 + c div 64 mod 64), of_nat (128 + c mod 64)]
      else Inl UnicodeEncodeError)"

text \<open>
  Code page 1252 is Latin-1 except for the bytes \<^verbatim>\<open>0x80\<close> to \<^verbatim>\<open>0x9F\<close>: 27 of them
  stand for the characters of this table, the other five for nothing.
\<close>

definition cp1252_table :: "(nat \<times> nat) list" where
  "cp1252_table =
     [(8364, 128), (8218, 130), (402, 131), (8222, 132), (8230, 133), (8224, 134), (8225, 135),
      (710, 136), (8240, 137), (352, 138), (8249, 139), (338, 140), (381, 142), (8216, 145),
      (8217, 146), (8220, 147), (8221, 148), (8226, 149), (8211, 150), (8212, 151), (732, 152),
      (8482, 153), (353, 154), (8250, 155), (339, 156), (382, 158), (376, 159)]"

definition cp1252_char :: "nat \<Rightarrow> error + bytes" where
  "cp1252_char c =
     (if c < 128 \<or> (160 \<le> c \<and> c < 256) then Inr [of_nat c]
      else case map_of cp1252_table c of
             Some b \<Rightarrow> Inr [of_nat b]
           | None \<Rightarrow> Inl UnicodeEncodeError)"

fun encode_char :: "codec \<Rightarrow> nat \<Rightarrow> error + bytes" where
  "encode_char UTF8 c = utf8_char c"
| "encode_char Latin1 c = (if c < 256 then Inr [of_nat c] else Inl UnicodeEncodeError)"
| "encode_char ASCII c = (if c < 128 then Inr [of_nat c] else Inl UnicodeEncodeError)"
| "encode_char CP1252 c = cp1252_char c"
| "encode_char (Charmap m) c = (case m c of Some b \<Rightarrow> Inr b | None \<Rightarrow> Inl UnicodeEncodeError)"

fun str_encode :: "codec \<Rightarrow> str \<Rightarrow> error + bytes" where
  "str_encode cd [] = Inr []"
| "str_encode cd (c # cs) =
     (case encode_char cd c of
        Inl e \<Rightarrow> Inl e
      | Inr b \<Rightarrow> (case str_encode cd cs of Inl e \<Rightarrow> Inl e | Inr bs \<Rightarrow> Inr (b @ bs)))"

definition translate_newlines :: "str \<Rightarrow> str \<Rightarrow> str" where
  "translate_newlines sep s = concat (map (\<lambda>c. if c = 10 then sep else [c]) s)"

text \<open>
  \<^verbatim>\<open>open(path, "w")\<close>: the directory part of the path (what stands before its last
  slash; none means the working directory) must exist, or \<^verbatim>\<open>FileNotFoundError\<close> is
  raised and nothing is created. Otherwise the file is created or truncated. The handle
  returned is the path. Other failures of the operating system are not modelled.
\<close>

definition dirname :: "string \<Rightarrow> string" where
  "dirname p = rev (drop 1 (dropWhile (\<lambda>c. c \<noteq> CHR ''/'') (rev p)))"

definition open_w :: "string \<Rightarrow> world \<Rightarrow> (error + string) \<times> world" where
  "open_w path w =
     (let w1 = log (OpenFile path ''w'') w in
      if dirname path = [] \<or> dirname path \<in> dirs w1
      then (Inr path, w1\<lparr>files := (files w1)(path \<mapsto> Data [])\<rparr>)
      else (Inl FileNotFoundError, w1))"

text \<open>
  Writing text \<open>s\<close> to the handle \<open>f\<close> and closing it, as the \<^verbatim>\<open>with\<close> block does:
  newlines are translated, the text is encoded with the platform's codec. When a
  character cannot be encoded the exception leaves the block, and the file keeps what had
  been written before.
\<close>

definition text_bytes :: "platform \<Rightarrow> str \<Rightarrow> error + bytes" where
  "text_bytes pf s = str_encode (preferred_encoding pf) (translate_newlines (linesep pf) s)"

definition text_write :: "platform \<Rightarrow> string \<Rightarrow> str \<Rightarrow> world \<Rightarrow> (error + unit) \<times> world" where
  "text_write pf f s w =
     (case text_bytes pf s of
        Inl e \<Rightarrow> (Inl e, w\<lparr>files := (files w)(f \<mapsto> Partial)\<rparr>)
      | Inr bs \<Rightarrow> (Inr (), w\<lparr>files := (files w)(f \<mapsto> Data bs)\<rparr>))"

definition json_dump ::
  "pyobj \<Rightarrow> string \<Rightarrow> nat \<Rightarrow> platform \<Rightarrow> world \<Rightarrow> (error + unit) \<times> world" where
  "json_dump obj f ind pf w = text_write pf f (dumps ind 0 obj) w"

definition print :: "str \<Rightarrow> world \<Rightarrow> world" where
  "print line w = w\<lparr>stdout := stdout w @ [line]\<rparr>"

section \<open>\<^verbatim>\<open>main\<close>\<close>

definition model_name :: string where
  "model_name = ''xlm-roberta-base''"

definition golden_path :: string where
  "golden_path = ''testdata/tokenizer_golden.json''"

text \<open>The line \<^verbatim>\<open>f"Generated {len(results)} test cases"\<close>.\<close>

definition summary_line :: "nat \<Rightarrow> str" where
  "summary_line n = lit ''Generated '' @ nat_str n @ lit '' test cases''"

definition main :: "from_pretrained \<Rightarrow> platform \<Rightarrow> world \<Rightarrow> (error + unit) \<times> world" where
  "main from_pretrained pf w =
     (let w1 = log (FromPretrained model_name) w in
      case from_pretrained model_name of
        Inl e \<Rightarrow> (Inl e, w1)
      | Inr tok \<Rightarrow>
          (case main_loop tok test_cases [] w1 of
             (Inl e, w2) \<Rightarrow> (Inl e, w2)
           | (Inr results, w2) \<Rightarrow>
               (case open_w golden_path w2 of
                  (Inl e, w3) \<Rightarrow> (Inl e, w3)
                | (Inr f, w3) \<Rightarrow>
                    (case json_dump (results_obj results) f 2 pf w3 of
                       (Inl e, w4) \<Rightarrow> (Inl e, w4)
                     | (Inr u, w4) \<Rightarrow>
                         (Inr (), print (summary_line (length results)) w4)))))"

text \<open>
  The script as a process: \<^verbatim>\<open>main()\<close> is called once, an uncaught exception ends the
  interpreter with status 1, a normal return with status 0.
\<close>

definition exit_status :: "from_pretrained \<Rightarrow> platform \<Rightarrow> world \<Rightarrow> nat" where
  "exit_status from_pretrained pf w =
     (case fst (main from_pretrained pf w) of Inl e \<Rightarrow> 1 | Inr u \<Rightarrow> 0)"

section \<open>A small tokenizer to run the script on\<close>

text \<open>
  One token per non-empty text: its id is the text's length, its span the whole text, its
  string form the letter \<^verbatim>\<open>t\<close> and the id. With special tokens it would add the ids 0
  and 2 around, each with the empty span.
\<close>

definition whole_tok :: tokenizer where
  "whole_tok =
     \<lparr>tok_call = (\<lambda>text offs special.
        (let n = int (length text);
             ids = (if text = [] then [] else [n]);
             spans = (if text = [] then [] else [(0, n)])
         in Inr \<lparr>input_ids = (if special then [0] @ ids @ [2] else ids),
                 offset_mapping = (if special then [(0, 0)] @ spans @ [(0, 0)] else spans)\<rparr>)),
      convert_ids_to_tokens = (\<lambda>ids. Inr (map (\<lambda>i. 116 # int_str i) ids))\<rparr>"

text \<open>The record this tokenizer gives for a text.\<close>

definition whole_record :: "str \<Rightarrow> golden" where
  "whole_record t =
     \<lparr>input = t,
      token_ids = (if t = [] then [] else [int (length t)]),
      offsets = (if t = [] then [] else [(0, int (length t))]),
      tokens = (if t = [] then [] else [116 # int_str (int (length t))])\<rparr>"

definition load_whole :: from_pretrained where
  "load_whole name = (if name = model_name then Inr whole_tok else Inl (LibraryError ''OSError''))"

text \<open>A tokenizer that refuses a text with a character outside ASCII.\<close>

definition picky_tok :: tokenizer where
  "picky_tok =
     whole_tok\<lparr>tok_call := (\<lambda>t offs special.
        if list_all (\<lambda>c. c < 128) t then tok_call whole_tok t offs special
        else Inl (LibraryError ''ValueError''))\<rparr>"

definition load_picky :: from_pretrained where
  "load_picky name = Inr picky_tok"

text \<open>
  A tokenizer that puts the word-boundary token (id 6, the character \<^verbatim>\<open>U+2581\<close>, empty
  span) before the tokens of the text. It is no special token: the flag does not remove it.
\<close>

definition prefix_tok :: tokenizer where
  "prefix_tok =
     \<lparr>tok_call = (\<lambda>text offs special.
        (let n = int (length text);
             ids = (if text = [] then [] else [n]);
             spans = (if text = [] then [] else [(0, n)])
         in Inr \<lparr>input_ids = 6 # ids, offset_mapping = (0, 0) # spans\<rparr>)),
      convert_ids_to_tokens =
        (\<lambda>ids. Inr (map (\<lambda>i. if i = 6 then [9601] else 116 # int_str i) ids))\<rparr>"

definition load_fails :: from_pretrained where
  "load_fails name = Inl (LibraryError ''OSError'')"

definition posix_utf8 :: platform where
  "posix_utf8 = \<lparr>preferred_encoding = UTF8, linesep = [10]\<rparr>"

definition posix_latin1 :: platform where
  "posix_latin1 = \<lparr>preferred_encoding = Latin1, linesep = [10]\<rparr>"

definition windows_cp1252 :: platform where
  "windows_cp1252 = \<lparr>preferred_encoding = CP1252, linesep = [13, 10]\<rparr>"

definition world0 :: world where
  "world0 = \<lparr>dirs = {''testdata''}, files = Map.empty, stdout = [], calls = []\<rparr>"

definition world_nodir :: world where
  "world_nodir = \<lparr>dirs = {}, files = Map.empty, stdout = [], calls = []\<rparr>"

section \<open>Reading the text back: \<^verbatim>\<open>json.loads\<close>\<close>

text \<open>
  The reader of \<^verbatim>\<open>json.decoder\<close> and \<^verbatim>\<open>json.scanner\<close>, for the values that \<open>pyobj\<close>
  has: strings (\<^verbatim>\<open>py_scanstring\<close> in strict mode, with all escapes and surrogate pairs),
  integers, arrays and objects, with white space where JSON allows it. A float, \<^verbatim>\<open>true\<close>,
  \<^verbatim>\<open>false\<close> or \<^verbatim>\<open>null\<close> has no \<open>pyobj\<close> and is read as a failure, like a text that is not
  JSON. An object is read as the list of its pairs, in order. The first argument of the
  three mutually recursive scanners bounds the number of nested calls; \<open>json_loads\<close> gives
  them the length of the text.
\<close>

definition is_ws :: "nat \<Rightarrow> bool" where
  "is_ws c \<longleftrightarrow> c = 32 \<or> c = 9 \<or> c = 10 \<or> c = 13"

definition skip_ws :: "str \<Rightarrow> str" where
  "skip_ws s = dropWhile is_ws s"

definition hexval :: "nat \<Rightarrow> nat option" where
  "hexval c =
     (if 48 \<le> c \<and> c \<le> 57 then Some (c - 48)
      else if 97 \<le> c \<and> c \<le> 102 then Some (c - 87)
      else if 65 \<le> c \<and> c \<le> 70 then Some (c - 55)
      else None)"

definition hex4 :: "nat \<Rightarrow> nat \<Rightarrow> nat \<Rightarrow> nat \<Rightarrow> nat option" where
  "hex4 a b c d =
     (case hexval a of None \<Rightarrow> None | Some x \<Rightarrow>
      case hexval b of None \<Rightarrow> None | Some y \<Rightarrow>
      case hexval c of None \<Rightarrow> None | Some z \<Rightarrow>
      case hexval d of None \<Rightarrow> None | Some u \<Rightarrow> Some (4096 * x + 256 * y + 16 * z + u))"

definition unescape :: "nat \<Rightarrow> nat option" where
  "unescape e =
     (if e = 34 then Some 34
      else if e = 92 then Some 92
      else if e = 47 then Some 47
      else if e = 98 then Some 8
      else if e = 102 then Some 12
      else if e = 110 then Some 10
      else if e = 114 then Some 13
      else if e = 116 then Some 9
      else None)"

definition push :: "'a \<Rightarrow> ('a list \<times> str) option \<Rightarrow> ('a list \<times> str) option" where
  "push x r = map_option (\<lambda>p. (x # fst p, snd p)) r"

fun scanstring :: "str \<Rightarrow> (str \<times> str) option" where
  "scanstring [] = None"
| "scanstring (c # cs) =
     (if c = 34 then Some ([], cs)
      else if c = 92 then
        (case cs of
           [] \<Rightarrow> None
         | e # es \<Rightarrow>
             if e = 117 then
               (case es of
                  h1 # h2 # h3 # h4 # r \<Rightarrow>
                    (case hex4 h1 h2 h3 h4 of
                       None \<Rightarrow> None
                     | Some u \<Rightarrow>
                         (case r of
                            b # v # g1 # g2 # g3 # g4 # r' \<Rightarrow>
                              (case hex4 g1 g2 g3 g4 of
                                 None \<Rightarrow> push u (scanstring r)
                               | Some u2 \<Rightarrow>
                                   if 55296 \<le> u \<and> u \<le> 56319 \<and> b = 92 \<and> v = 117
                                      \<and> 56320 \<le> u2 \<and> u2 \<le> 57343
                                   then push (65536 + (u - 55296) * 1024 + (u2 - 56320))
                                          (scanstring r')
                                   else push u (scanstring r))
                          | _ \<Rightarrow> push u (scanstring r)))
                | _ \<Rightarrow> None)
             else (case unescape e of None \<Rightarrow> None | Some x \<Rightarrow> push x (scanstring es)))
      else if c < 32 then None
      else push c (scanstring cs))"

definition is_digit :: "nat \<Rightarrow> bool" where
  "is_digit c \<longleftrightarrow> 48 \<le> c \<and> c \<le> 57"

definition digits_val :: "str \<Rightarrow> nat" where
  "digits_val ds = foldl (\<lambda>a d. 10 * a + (d - 48)) 0 ds"

definition scan_number :: "str \<Rightarrow> (int \<times> str) option" where
  "scan_number s =
     (let neg = (s \<noteq> [] \<and> hd s = 45);
          s1 = (if neg then tl s else s);
          ds = (if s1 \<noteq> [] \<and> hd s1 = 48 then [48] else takeWhile is_digit s1);
          rest = drop (length ds) s1
      in if ds = [] then None
         else if rest \<noteq> [] \<and> (hd rest = 46 \<or> hd rest = 101 \<or> hd rest = 69) then None
         else Some (if neg then - int (digits_val ds) else int (digits_val ds), rest))"

fun scan_value :: "nat \<Rightarrow> str \<Rightarrow> (pyobj \<times> str) option"
  and scan_array :: "nat \<Rightarrow> str \<Rightarrow> (pyobj list \<times> str) option"
  and scan_object :: "nat \<Rightarrow> str \<Rightarrow> ((str \<times> pyobj) list \<times> str) option" where
  "scan_value 0 s = None"
| "scan_value (Suc n) s =
     (case s of
        [] \<Rightarrow> None
      | c # cs \<Rightarrow>
          if c = 34 then map_option (\<lambda>p. (PStr (fst p), snd p)) (scanstring cs)
          else if c = 91 then
            (case skip_ws cs of
               [] \<Rightarrow> None
             | d # ds \<Rightarrow>
                 if d = 93 then Some (PList [], ds)
                 else map_option (\<lambda>p. (PList (fst p), snd p)) (scan_array n (d # ds)))
          else if c = 123 then
            (case skip_ws cs of
               [] \<Rightarrow> None
             | d # ds \<Rightarrow>
                 if d = 125 then Some (PDict [], ds)
                 else map_option (\<lambda>p. (PDict (fst p), snd p)) (scan_object n (d # ds)))
          else map_option (\<lambda>p. (PInt (fst p), snd p)) (scan_number s))"
| "scan_array 0 s = None"
| "scan_array (Suc n) s =
     (case scan_value n s of
        None \<Rightarrow> None
      | Some (v, r) \<Rightarrow>
          (case skip_ws r of
             [] \<Rightarrow> None
           | d # ds \<Rightarrow>
               if d = 93 then Some ([v], ds)
               else if d = 44 then push v (scan_array n (skip_ws ds))
               else None))"
| "scan_object 0 s = None"
| "scan_object (Suc n) s =
     (case s of
        [] \<Rightarrow> None
      | q # cs \<Rightarrow>
          if q \<noteq> 34 then None
          else
            (case scanstring cs of
               None \<Rightarrow> None
             | Some (k, r) \<Rightarrow>
                 (case skip_ws r of
                    [] \<Rightarrow> None
                  | col # r1 \<Rightarrow>
                      if col \<noteq> 58 then None
                      else
                        (case scan_value n (skip_ws r1) of
                           None \<Rightarrow> None
                         | Some (v, r2) \<Rightarrow>
                             (case skip_ws r2 of
                                [] \<Rightarrow> None
                              | d # ds \<Rightarrow>
                                  if d = 125 then Some ([(k, v)], ds)
                                  else if d = 44 then push (k, v) (scan_object n (skip_ws ds))
                                  else None)))))"

definition json_loads :: "str \<Rightarrow> pyobj option" where
  "json_loads s =
     (case scan_value (length s) (skip_ws s) of
        None \<Rightarrow> None
      | Some (v, r) \<Rightarrow> if skip_ws r = [] then Some v else None)"

section \<open>Notions used to state the properties\<close>

text \<open>
  \<open>made_by tok r\<close>: the record \<open>r\<close> holds exactly what the two library calls return for
  its input, the encode call made with offsets requested and special tokens disabled, the
  resolution applied to the ids of that same encoding.
\<close>

definition made_by :: "tokenizer \<Rightarrow> golden \<Rightarrow> bool" where
  "made_by tok r \<longleftrightarrow>
     tok_call tok (input r) True False
       = Inr \<lparr>input_ids = token_ids r, offset_mapping = offsets r\<rparr> \<and>
     convert_ids_to_tokens tok (token_ids r) = Inr (tokens r)"

text \<open>The two library calls that one record stands for, in the order they are made.\<close>

definition record_calls :: "golden \<Rightarrow> call list" where
  "record_calls r = [TokCall (input r) True False, ConvertIdsToTokens (token_ids r)]"

fun is_tokenizer_call :: "call \<Rightarrow> bool" where
  "is_tokenizer_call (TokCall t b1 b2) = True"
| "is_tokenizer_call (ConvertIdsToTokens ids) = True"
| "is_tokenizer_call c = False"

text \<open>
  The offset contract of the tokenizer for a text: the spans do not go backwards (neither
  their starts nor their ends), and each lies inside the text, \<open>start \<le> end \<le> len(text)\<close>.
\<close>

definition nondecreasing :: "(int \<times> int) list \<Rightarrow> bool" where
  "nondecreasing spans \<longleftrightarrow> sorted (map fst spans) \<and> sorted (map snd spans)"

definition offsets_ok :: "str \<Rightarrow> (int \<times> int) list \<Rightarrow> bool" where
  "offsets_ok t spans \<longleftrightarrow>
     nondecreasing spans \<and> list_all (\<lambda>p. fst p \<le> snd p \<and> snd p \<le> int (length t)) spans"

text \<open>The JSON text of the results and the calls the script adds to the log.\<close>

definition document :: "golden list \<Rightarrow> str" where
  "document results = dumps 2 0 (results_obj results)"

definition new_calls :: "world \<Rightarrow> world \<Rightarrow> call list" where
  "new_calls w w' = drop (length (calls w)) (calls w')"

fun is_encode_call :: "call \<Rightarrow> bool" where
  "is_encode_call (TokCall t b1 b2) = True"
| "is_encode_call c = False"

section \<open>What the loop does\<close>

text \<open>
  A loop that returns has appended one record per text, in order, each made by the two
  library calls, and has added exactly those calls to the log.
\<close>

lemma main_loop_Inr:
  "main_loop tok texts acc w = (Inr results, w') \<Longrightarrow>
     \<exists>new. results = acc @ new \<and> map input new = texts \<and> (\<forall>r\<in>set new. made_by tok r) \<and>
           w' = w\<lparr>calls := calls w @ concat (map record_calls new)\<rparr>"
proof (induction texts arbitrary: acc w)
  case Nil
  then show ?case by simp
next
  case (Cons t rest)
  from Cons.prems obtain enc ts where
    enc: "tok_call tok t True False = Inr enc" and
    ts: "convert_ids_to_tokens tok (input_ids enc) = Inr ts" and
    rec: "main_loop tok rest
            (acc @ [\<lparr>input = t, token_ids = input_ids enc,
                      offsets = offset_mapping enc, tokens = ts\<rparr>])
            (log (ConvertIdsToTokens (input_ids enc)) (log (TokCall t True False) w))
          = (Inr results, w')"
    by (auto simp: Let_def split: sum.splits)
  let ?r = "\<lparr>input = t, token_ids = input_ids enc,
             offsets = offset_mapping enc, tokens = ts\<rparr>"
  from Cons.IH [OF rec] obtain new where
    new: "results = (acc @ [?r]) @ new" "map input new = rest" "\<forall>r\<in>set new. made_by tok r"
      "w' = (log (ConvertIdsToTokens (input_ids enc)) (log (TokCall t True False) w))
              \<lparr>calls := calls (log (ConvertIdsToTokens (input_ids enc))
                                (log (TokCall t True False) w))
                          @ concat (map record_calls new)\<rparr>"
    by blast
  have "made_by tok ?r" using enc ts by (simp add: made_by_def)
  with new show ?case
    by (intro exI [of _ "?r # new"]) (simp add: log_def record_calls_def [abs_def])
qed

lemma main_loop_frame:
  "dirs (snd (main_loop tok texts acc w)) = dirs w \<and>
   files (snd (main_loop tok texts acc w)) = files w \<and>
   stdout (snd (main_loop tok texts acc w)) = stdout w"
  by (induction texts arbitrary: acc w) (auto simp: Let_def log_def split: sum.splits)

lemma main_loop_fst_indep:
  "fst (main_loop tok texts acc w) = fst (main_loop tok texts acc w2)"
  by (induction texts arbitrary: acc w w2) (auto simp: Let_def split: sum.splits)

lemma main_loop_calls:
  "\<exists>cs. calls (snd (main_loop tok texts acc w)) = calls w @ cs \<and> list_all is_tokenizer_call cs"
proof (induction texts arbitrary: acc w)
  case Nil
  show ?case by simp
next
  case (Cons t rest)
  show ?case
  proof (cases "tok_call tok t True False")
    case (Inl e)
    then show ?thesis by (simp add: Let_def log_def)
  next
    case (Inr enc)
    note enc = this
    show ?thesis
    proof (cases "convert_ids_to_tokens tok (input_ids enc)")
      case (Inl e)
      with enc show ?thesis by (simp add: Let_def log_def)
    next
      case (Inr ts)
      let ?w2 = "log (ConvertIdsToTokens (input_ids enc)) (log (TokCall t True False) w)"
      let ?acc = "acc @ [\<lparr>input = t, token_ids = input_ids enc,
                      offsets = offset_mapping enc, tokens = ts\<rparr>]"
      from Cons.IH [of ?acc ?w2] obtain cs where
        "calls (snd (main_loop tok rest ?acc ?w2)) = calls ?w2 @ cs" "list_all is_tokenizer_call cs"
        by blast
      with enc Inr show ?thesis
        by (intro exI [of _ "[TokCall t True False, ConvertIdsToTokens (input_ids enc)] @ cs"])
           (simp add: Let_def log_def)
    qed
  qed
qed


lemma main_loop_results:
  assumes "fst (main_loop tok texts [] w) = Inr results"
  shows "map input results = texts"
    and "\<forall>r\<in>set results. made_by tok r"
    and "snd (main_loop tok texts [] w) = w\<lparr>calls := calls w @ concat (map record_calls results)\<rparr>"
proof -
  from assms have "main_loop tok texts [] w = (Inr results, snd (main_loop tok texts [] w))"
    by (metis prod.collapse)
  from main_loop_Inr [OF this]
  show "map input results = texts"
    and "\<forall>r\<in>set results. made_by tok r"
    and "snd (main_loop tok texts [] w) = w\<lparr>calls := calls w @ concat (map record_calls results)\<rparr>"
    by auto
qed

lemma new_calls_append [simp]: "new_calls w (w\<lparr>calls := calls w @ cs\<rparr>) = cs"
  by (simp add: new_calls_def)

lemma encode_calls_of_records:
  "filter is_encode_call (concat (map record_calls rs)) = map (\<lambda>r. TokCall (input r) True False) rs"
  by (induction rs) (simp_all add: record_calls_def)

lemma new_calls_append2: "calls w' = calls w @ cs \<Longrightarrow> new_calls w w' = cs"
  by (simp add: new_calls_def)

text \<open>Two tokenizers that answer the calls of the loop alike give the same result.\<close>

lemma main_loop_agree:
  assumes "\<forall>t\<in>set texts. tok_call tok1 t True False = tok_call tok2 t True False"
    and "\<forall>t\<in>set texts. \<forall>enc. tok_call tok1 t True False = Inr enc
           \<longrightarrow> convert_ids_to_tokens tok1 (input_ids enc)
               = convert_ids_to_tokens tok2 (input_ids enc)"
  shows "fst (main_loop tok1 texts acc w1) = fst (main_loop tok2 texts acc w2)"
  using assms
proof (induction texts arbitrary: acc w1 w2)
  case Nil
  show ?case by simp
next
  case (Cons t rest)
  from Cons.prems have e: "tok_call tok2 t True False = tok_call tok1 t True False" by simp
  show ?case
  proof (cases "tok_call tok1 t True False")
    case (Inl err)
    with e show ?thesis by (simp add: Let_def)
  next
    case (Inr enc)
    with Cons.prems(2) have c: "convert_ids_to_tokens tok2 (input_ids enc)
                                 = convert_ids_to_tokens tok1 (input_ids enc)"
      by simp
    show ?thesis
    proof (cases "convert_ids_to_tokens tok1 (input_ids enc)")
      case (Inl err)
      with e c Inr show ?thesis by (simp add: Let_def)
    next
      case (Inr ts)
      have "fst (main_loop tok1 rest
                  (acc @ [\<lparr>input = t, token_ids = input_ids enc,
                            offsets = offset_mapping enc, tokens = ts\<rparr>])
                  (log (ConvertIdsToTokens (input_ids enc)) (log (TokCall t True False) w1)))
          = fst (main_loop tok2 rest
                  (acc @ [\<lparr>input = t, token_ids = input_ids enc,
                            offsets = offset_mapping enc, tokens = ts\<rparr>])
                  (log (ConvertIdsToTokens (input_ids enc)) (log (TokCall t True False) w2)))"
        using Cons.prems by (intro Cons.IH) simp_all
      with e c \<open>tok_call tok1 t True False = Inr enc\<close> Inr show ?thesis
        by (simp add: Let_def)
    qed
  qed
qed

section \<open>Characters of the JSON text and their encoding\<close>

text \<open>
  A character of a record's input that is not escaped stands in the JSON text as it is;
  with \<^verbatim>\<open>ensure_ascii=False\<close> that is every character outside ASCII. A text with a
  character that the codec cannot encode is not written.
\<close>

lemma join_mem: "x \<in> set xs \<Longrightarrow> c \<in> set x \<Longrightarrow> c \<in> set (join sep xs)"
  by (induction sep xs rule: join.induct) auto

lemma escape_char_plain: "32 \<le> c \<Longrightarrow> c \<noteq> 34 \<Longrightarrow> c \<noteq> 92 \<Longrightarrow> escape_char c = [c]"
  by (simp add: escape_char_def)

lemma escape_char_non_ascii: "128 \<le> c \<Longrightarrow> escape_char c = [c]"
  by (simp add: escape_char_def)

lemma encode_basestring_mem:
  "c \<in> set s \<Longrightarrow> 32 \<le> c \<Longrightarrow> c \<noteq> 34 \<Longrightarrow> c \<noteq> 92 \<Longrightarrow> c \<in> set (encode_basestring s)"
  by (auto simp: encode_basestring_def intro!: bexI [of _ c] simp: escape_char_plain)

lemma golden_obj_input_mem:
  "c \<in> set (encode_basestring (input r)) \<Longrightarrow> c \<in> set (dumps ind lvl (golden_obj r))"
  by (simp add: golden_obj_def)

lemma document_input_mem:
  assumes "r \<in> set results" "c \<in> set (input r)" "128 \<le> c"
  shows "c \<in> set (document results)"
proof -
  from assms have "c \<in> set (dumps 2 (Suc 0) (golden_obj r))"
    by (intro golden_obj_input_mem encode_basestring_mem) simp_all
  moreover from assms(1)
  have "dumps 2 (Suc 0) (golden_obj r) \<in> set (map (dumps 2 (Suc 0)) (map golden_obj results))"
    by simp
  ultimately have "c \<in> set (join (44 # newline_indent 2 (Suc 0))
                         (map (dumps 2 (Suc 0)) (map golden_obj results)))"
    by (rule join_mem [rotated])
  moreover from assms(1) have "results \<noteq> []" by auto
  ultimately show ?thesis
    by (simp add: document_def results_obj_def)
qed

lemma translate_newlines_mem:
  "c \<in> set s \<Longrightarrow> c \<noteq> 10 \<Longrightarrow> c \<in> set (translate_newlines sep s)"
  by (auto simp: translate_newlines_def intro!: bexI [of _ c])

lemma encode_char_Inl: "encode_char cd c = Inl e \<Longrightarrow> e = UnicodeEncodeError"
  by (cases cd) (auto simp: utf8_char_def cp1252_char_def split: if_splits option.splits)

lemma str_encode_unencodable:
  "c \<in> set s \<Longrightarrow> encode_char cd c = Inl e \<Longrightarrow> str_encode cd s = Inl UnicodeEncodeError"
proof (induction s)
  case Nil
  then show ?case by simp
next
  case (Cons a s)
  show ?case
  proof (cases "encode_char cd a")
    case (Inl e')
    then show ?thesis using encode_char_Inl [OF Inl] by simp
  next
    case (Inr b)
    with Cons.prems have "c \<in> set s" by auto
    from Cons.IH [OF this Cons.prems(2)] Inr show ?thesis by simp
  qed
qed

lemma text_bytes_unencodable:
  assumes "r \<in> set results" "c \<in> set (input r)" "128 \<le> c"
    and "encode_char (preferred_encoding pf) c = Inl e"
  shows "text_bytes pf (document results) = Inl UnicodeEncodeError"
proof -
  from assms(1-3) have "c \<in> set (document results)" by (rule document_input_mem)
  with assms(3) have "c \<in> set (translate_newlines (linesep pf) (document results))"
    by (intro translate_newlines_mem) simp_all
  from str_encode_unencodable [OF this assms(4)] show ?thesis
    by (simp add: text_bytes_def)
qed

text \<open>How many bytes a text takes: one per character in code page 1252, at least one in
  UTF-8 and more than one for a character outside ASCII.\<close>

lemma str_encode_total:
  "list_all (\<lambda>c. \<exists>b. encode_char cd c = Inr b) s \<Longrightarrow> \<exists>bs. str_encode cd s = Inr bs"
  by (induction s) auto

lemma str_encode_Cons:
  "str_encode cd (c # s) = Inr bs \<Longrightarrow>
     \<exists>b bs'. encode_char cd c = Inr b \<and> str_encode cd s = Inr bs' \<and> bs = b @ bs'"
  by (auto split: sum.splits)

lemma cp1252_char_length: "cp1252_char c = Inr b \<Longrightarrow> length b = 1"
  by (auto simp: cp1252_char_def split: if_splits option.splits)

lemma str_encode_cp1252_length: "str_encode CP1252 s = Inr bs \<Longrightarrow> length bs = length s"
  by (induction s arbitrary: bs) (auto split: sum.splits dest: cp1252_char_length)

lemma utf8_char_length: "utf8_char c = Inr b \<Longrightarrow> 1 \<le> length b \<and> (128 \<le> c \<longrightarrow> 2 \<le> length b)"
  by (auto simp: utf8_char_def split: if_splits)

lemma str_encode_utf8_length: "str_encode UTF8 s = Inr bs \<Longrightarrow> length s \<le> length bs"
proof (induction s arbitrary: bs)
  case Nil
  then show ?case by simp
next
  case (Cons c s)
  from str_encode_Cons [OF Cons.prems] obtain b bs' where
    "utf8_char c = Inr b" "str_encode UTF8 s = Inr bs'" "bs = b @ bs'"
    by auto
  with Cons.IH [of bs'] utf8_char_length [of c b] show ?case by simp
qed

lemma str_encode_utf8_longer:
  "str_encode UTF8 s = Inr bs \<Longrightarrow> c \<in> set s \<Longrightarrow> 128 \<le> c \<Longrightarrow> length s < length bs"
proof (induction s arbitrary: bs)
  case Nil
  then show ?case by simp
next
  case (Cons a s)
  from str_encode_Cons [OF Cons.prems(1)] obtain b bs' where
    b: "utf8_char a = Inr b" and s: "str_encode UTF8 s = Inr bs'" and bs: "bs = b @ bs'"
    by auto
  show ?case
  proof (cases "a = c")
    case True
    with b Cons.prems(3) utf8_char_length [of a b] have "2 \<le> length b" by simp
    with str_encode_utf8_length [OF s] bs show ?thesis by simp
  next
    case False
    with Cons.prems(2) have "c \<in> set s" by simp
    from Cons.IH [OF s this Cons.prems(3)] utf8_char_length [of a b] b bs show ?thesis by simp
  qed
qed

lemma document_starts:
  "results \<noteq> [] \<Longrightarrow> \<exists>rest. document results = 91 # 10 # rest"
  by (simp add: document_def results_obj_def newline_indent_def)

section \<open>The five ways \<^verbatim>\<open>main\<close> can end\<close>

text \<open>
  The tokenizer does not load; a library call of the loop raises; the directory of the
  output file is missing; the text cannot be encoded; or the file is written and the
  summary printed. Each lemma gives the result and the whole final world.
\<close>

lemma dirname_golden_path: "dirname golden_path = ''testdata''"
  by (simp add: dirname_def golden_path_def)

lemma main_load_fails:
  "fp model_name = Inl e \<Longrightarrow> main fp pf w = (Inl e, log (FromPretrained model_name) w)"
  by (simp add: main_def)

lemma main_loop_fails:
  assumes "fp model_name = Inr tok"
    and "fst (main_loop tok test_cases [] (log (FromPretrained model_name) w)) = Inl e"
  shows "main fp pf w = (Inl e, snd (main_loop tok test_cases [] (log (FromPretrained model_name) w)))"
  using assms by (auto simp: main_def split: prod.splits)

lemma main_open_fails:
  assumes "fp model_name = Inr tok"
    and "fst (main_loop tok test_cases [] (log (FromPretrained model_name) w)) = Inr results"
    and "''testdata'' \<notin> dirs w"
  shows "main fp pf w =
     (Inl FileNotFoundError,
      w\<lparr>calls := calls w @ [FromPretrained model_name] @ concat (map record_calls results)
                 @ [OpenFile golden_path ''w'']\<rparr>)"
  using assms main_loop_results(3) [OF assms(2)]
  by (auto simp: main_def open_w_def dirname_golden_path log_def Let_def split: prod.splits)

lemma main_write_fails:
  assumes "fp model_name = Inr tok"
    and "fst (main_loop tok test_cases [] (log (FromPretrained model_name) w)) = Inr results"
    and "''testdata'' \<in> dirs w"
    and "text_bytes pf (document results) = Inl e"
  shows "main fp pf w =
     (Inl e,
      w\<lparr>calls := calls w @ [FromPretrained model_name] @ concat (map record_calls results)
                 @ [OpenFile golden_path ''w''],
        files := (files w)(golden_path \<mapsto> Partial)\<rparr>)"
  using assms main_loop_results(3) [OF assms(2)]
  by (auto simp: main_def open_w_def dirname_golden_path log_def Let_def json_dump_def
        text_write_def document_def split: prod.splits)

lemma main_succeeds:
  assumes "fp model_name = Inr tok"
    and "fst (main_loop tok test_cases [] (log (FromPretrained model_name) w)) = Inr results"
    and "''testdata'' \<in> dirs w"
    and "text_bytes pf (document results) = Inr bs"
  shows "main fp pf w =
     (Inr (),
      w\<lparr>calls := calls w @ [FromPretrained model_name] @ concat (map record_calls results)
                 @ [OpenFile golden_path ''w''],
        files := (files w)(golden_path \<mapsto> Data bs),
        stdout := stdout w @ [summary_line (length results)]\<rparr>)"
  using assms main_loop_results(3) [OF assms(2)]
  by (auto simp: main_def open_w_def dirname_golden_path log_def Let_def json_dump_def
        text_write_def document_def print_def split: prod.splits)

text \<open>A run that returns normally went through all four stages.\<close>

lemma main_Inr_elim:
  assumes ok: "fst (main fp pf w) = Inr ()"
  obtains tok results bs where
    "fp model_name = Inr tok"
    "fst (main_loop tok test_cases [] (log (FromPretrained model_name) w)) = Inr results"
    "''testdata'' \<in> dirs w"
    "text_bytes pf (document results) = Inr bs"
proof (cases "fp model_name")
  case (Inl e)
  from main_load_fails [where fp = fp, OF this] ok show ?thesis by simp
next
  case (Inr tok)
  note tok = this
  show ?thesis
  proof (cases "fst (main_loop tok test_cases [] (log (FromPretrained model_name) w))")
    case (Inl e)
    from main_loop_fails [where fp = fp, OF tok this] ok show ?thesis by simp
  next
    case (Inr results)
    note loop = this
    show ?thesis
    proof (cases "''testdata'' \<in> dirs w")
      case False
      from main_open_fails [where fp = fp, OF tok loop this] ok show ?thesis by simp
    next
      case True
      show ?thesis
      proof (cases "text_bytes pf (document results)")
        case (Inl e)
        from main_write_fails [where fp = fp, OF tok loop True this] ok show ?thesis by simp
      next
        case (Inr bs)
        from that [OF tok loop True this] show ?thesis .
      qed
    qed
  qed
qed

text \<open>The same five ways as a case rule, and what follows from it for every run.\<close>

lemma main_cases [case_names load_fails loop_fails open_fails write_fails succeeds]:
  obtains
    (load_fails) e where
      "fp model_name = Inl e"
      "main fp pf w = (Inl e, log (FromPretrained model_name) w)"
  | (loop_fails) tok e where
      "fp model_name = Inr tok"
      "fst (main_loop tok test_cases [] (log (FromPretrained model_name) w)) = Inl e"
      "main fp pf w = (Inl e, snd (main_loop tok test_cases [] (log (FromPretrained model_name) w)))"
  | (open_fails) tok results where
      "fp model_name = Inr tok"
      "fst (main_loop tok test_cases [] (log (FromPretrained model_name) w)) = Inr results"
      "''testdata'' \<notin> dirs w"
      "main fp pf w =
         (Inl FileNotFoundError,
          w\<lparr>calls := calls w @ [FromPretrained model_name] @ concat (map record_calls results)
                     @ [OpenFile golden_path ''w'']\<rparr>)"
  | (write_fails) tok results e where
      "fp model_name = Inr tok"
      "fst (main_loop tok test_cases [] (log (FromPretrained model_name) w)) = Inr results"
      "''testdata'' \<in> dirs w"
      "text_bytes pf (document results) = Inl e"
      "main fp pf w =
         (Inl e,
          w\<lparr>calls := calls w @ [FromPretrained model_name] @ concat (map record_calls results)
                     @ [OpenFile golden_path ''w''],
            files := (files w)(golden_path \<mapsto> Partial)\<rparr>)"
  | (succeeds) tok results bs where
      "fp model_name = Inr tok"
      "fst (main_loop tok test_cases [] (log (FromPretrained model_name) w)) = Inr results"
      "''testdata'' \<in> dirs w"
      "text_bytes pf (document results) = Inr bs"
      "main fp pf w =
         (Inr (),
          w\<lparr>calls := calls w @ [FromPretrained model_name] @ concat (map record_calls results)
                     @ [OpenFile golden_path ''w''],
            files := (files w)(golden_path \<mapsto> Data bs),
            stdout := stdout w @ [summary_line (length results)]\<rparr>)"
proof (cases "fp model_name")
  case (Inl e)
  from load_fails [OF this main_load_fails [where fp = fp, OF this]] show ?thesis .
next
  case (Inr tok)
  note tok = this
  show ?thesis
  proof (cases "fst (main_loop tok test_cases [] (log (FromPretrained model_name) w))")
    case (Inl e)
    from loop_fails [OF tok this main_loop_fails [where fp = fp, OF tok this]] show ?thesis .
  next
    case (Inr results)
    note loop = this
    show ?thesis
    proof (cases "''testdata'' \<in> dirs w")
      case False
      from open_fails [OF tok loop this main_open_fails [where fp = fp, OF tok loop this]]
      show ?thesis .
    next
      case True
      show ?thesis
      proof (cases "text_bytes pf (document results)")
        case (Inl e)
        from write_fails [OF tok loop True this
            main_write_fails [where fp = fp, OF tok loop True this]]
        show ?thesis .
      next
        case (Inr bs)
        from succeeds [OF tok loop True this main_succeeds [where fp = fp, OF tok loop True this]]
        show ?thesis .
      qed
    qed
  qed
qed

lemma main_dirs: "dirs (snd (main fp pf w)) = dirs w"
  by (cases rule: main_cases [of fp pf w]) (simp_all add: log_def main_loop_frame)

lemma main_failure_prints_nothing:
  "fst (main fp pf w) = Inl e \<Longrightarrow> stdout (snd (main fp pf w)) = stdout w"
  by (cases rule: main_cases [of fp pf w]) (simp_all add: log_def main_loop_frame)

lemma main_result_indep:
  assumes "''testdata'' \<in> dirs w1 \<longleftrightarrow> ''testdata'' \<in> dirs w2"
  shows "fst (main fp pf w1) = fst (main fp pf w2)"
proof (cases rule: main_cases [of fp pf w1])
  case (load_fails e)
  then show ?thesis by (simp add: main_load_fails [where fp = fp])
next
  case (loop_fails tok e)
  from loop_fails(2)
  have "fst (main_loop tok test_cases [] (log (FromPretrained model_name) w2)) = Inl e"
    by (simp add: main_loop_fst_indep [where w = "log (FromPretrained model_name) w2"
          and ?w2.0 = "log (FromPretrained model_name) w1"])
  from main_loop_fails [where fp = fp, OF loop_fails(1) this] loop_fails(3)
  show ?thesis by simp
next
  case (open_fails tok results)
  from open_fails(2)
  have "fst (main_loop tok test_cases [] (log (FromPretrained model_name) w2)) = Inr results"
    by (simp add: main_loop_fst_indep [where w = "log (FromPretrained model_name) w2"
          and ?w2.0 = "log (FromPretrained model_name) w1"])
  moreover from open_fails(3) assms have "''testdata'' \<notin> dirs w2" by simp
  ultimately show ?thesis
    using main_open_fails [where fp = fp, OF open_fails(1)] open_fails(4) by simp
next
  case (write_fails tok results e)
  from write_fails(2)
  have "fst (main_loop tok test_cases [] (log (FromPretrained model_name) w2)) = Inr results"
    by (simp add: main_loop_fst_indep [where w = "log (FromPretrained model_name) w2"
          and ?w2.0 = "log (FromPretrained model_name) w1"])
  moreover from write_fails(3) assms have "''testdata'' \<in> dirs w2" by simp
  ultimately show ?thesis
    using main_write_fails [where fp = fp, OF write_fails(1) _ _ write_fails(4)] write_fails(5)
    by simp
next
  case (succeeds tok results bs)
  from succeeds(2)
  have "fst (main_loop tok test_cases [] (log (FromPretrained model_name) w2)) = Inr results"
    by (simp add: main_loop_fst_indep [where w = "log (FromPretrained model_name) w2"
          and ?w2.0 = "log (FromPretrained model_name) w1"])
  moreover from succeeds(3) assms have "''testdata'' \<in> dirs w2" by simp
  ultimately show ?thesis
    using main_succeeds [where fp = fp, OF succeeds(1) _ _ succeeds(4)] succeeds(5)
    by simp
qed

text \<open>On a platform whose preferred encoding is UTF-8 the bytes written are the UTF-8 encoding
  of the JSON text.\<close>

lemma main_on_utf8_platform:
  assumes "preferred_encoding pf = UTF8" and "fst (main fp pf w) = Inr ()"
  shows "\<exists>results bs.
    files (snd (main fp pf w)) golden_path = Some (Data bs) \<and>
    str_encode UTF8 (translate_newlines (linesep pf) (dumps 2 0 (PList (map golden_obj results))))
      = Inr bs"
proof -
  from assms(2) obtain tok results bs where
    tok: "fp model_name = Inr tok" and
    loop: "fst (main_loop tok test_cases [] (log (FromPretrained model_name) w)) = Inr results" and
    dir: "''testdata'' \<in> dirs w" and
    bs: "text_bytes pf (document results) = Inr bs"
    by (rule main_Inr_elim)
  have "files (snd (main fp pf w)) golden_path = Some (Data bs)"
    by (simp add: main_succeeds [where fp = fp, OF tok loop dir bs])
  moreover have "str_encode UTF8
      (translate_newlines (linesep pf) (dumps 2 0 (PList (map golden_obj results)))) = Inr bs"
    using bs assms(1) by (simp only: document_def results_obj_def text_bytes_def)
  ultimately show ?thesis by blast
qed

section \<open>Facts about the fixed inputs and the small tokenizer\<close>

lemma length_test_cases: "length test_cases = 11"
  by (simp add: test_cases_def)

lemma results_length:
  "fst (main_loop tok test_cases [] w) = Inr results \<Longrightarrow> length results = 11"
  using main_loop_results(1) length_test_cases by (metis length_map)

lemma test_cases_7: "test_cases ! 7 = []"
  by (simp add: test_cases_def)

lemma whole_tok_call:
  "tok_call whole_tok t True False =
     Inr \<lparr>input_ids = (if t = [] then [] else [int (length t)]),
          offset_mapping = (if t = [] then [] else [(0, int (length t))])\<rparr>"
  by (simp add: whole_tok_def Let_def)

lemma whole_tok_convert:
  "convert_ids_to_tokens whole_tok ids = Inr (map (\<lambda>i. 116 # int_str i) ids)"
  by (simp add: whole_tok_def)

lemma whole_tok_loop:
  "\<exists>results. fst (main_loop whole_tok texts acc w) = Inr results"
  by (induction texts arbitrary: acc w) (simp_all add: whole_tok_call whole_tok_convert Let_def)

lemma whole_tok_loop_records:
  "fst (main_loop whole_tok texts acc w) = Inr (acc @ map whole_record texts)"
  by (induction texts arbitrary: acc w)
     (simp_all add: whole_tok_call whole_tok_convert Let_def whole_record_def)

lemma replicate_numeral: "replicate (numeral k) x = x # replicate (pred_numeral k) x"
  by (simp add: numeral_eq_Suc)

lemma str_encode_utf8_total:
  "list_all (\<lambda>c. c < 55296) s \<Longrightarrow> \<exists>bs. str_encode UTF8 s = Inr bs"
  by (induction s) (auto simp: utf8_char_def)

lemmas document_defs = document_def results_obj_def golden_obj_def whole_record_def test_cases_def
  lit_def int_str_def encode_basestring_def escape_char_def hexdigit_def newline_indent_def
  replicate_numeral

lemma whole_document_chars:
  "list_all (\<lambda>c. c < 55296) (translate_newlines [10] (document (map whole_record test_cases)))"
  by (simp add: document_defs translate_newlines_def)

lemma whole_document_utf8:
  "\<exists>bs. text_bytes posix_utf8 (document (map whole_record test_cases)) = Inr bs"
  using str_encode_utf8_total [OF whole_document_chars]
  by (simp add: text_bytes_def posix_utf8_def)

lemma load_whole_model: "load_whole model_name = Inr whole_tok"
  by (simp add: load_whole_def)

lemma main_whole_utf8: "fst (main load_whole posix_utf8 world0) = Inr ()"
proof -
  obtain bs where bs: "text_bytes posix_utf8 (document (map whole_record test_cases)) = Inr bs"
    using whole_document_utf8 by blast
  have loop: "fst (main_loop whole_tok test_cases [] (log (FromPretrained model_name) world0))
                = Inr (map whole_record test_cases)"
    by (simp add: whole_tok_loop_records)
  have "''testdata'' \<in> dirs world0" by (simp add: world0_def)
  from main_succeeds [where fp = load_whole, OF load_whole_model loop this bs]
  show ?thesis by simp
qed

lemma load_fails_model: "load_fails model_name = Inl (LibraryError ''OSError'')"
  by (simp add: load_fails_def)

lemma main_second_run_utf8:
  "fst (main load_whole posix_utf8 (snd (main load_whole posix_utf8 world0))) = Inr ()"
  using main_result_indep [of "snd (main load_whole posix_utf8 world0)" world0 load_whole posix_utf8]
  by (simp add: main_dirs main_whole_utf8)

lemma test_cases_9: "test_cases ! 9 = [228, 189, 160, 229, 165, 189, 228, 184, 8211, 231, 8226, 338]"
  by (simp add: test_cases_def)

lemma results_hold_8211:
  assumes "fst (main_loop tok test_cases [] w) = Inr results"
  shows "results ! 9 \<in> set results \<and> 8211 \<in> set (input (results ! 9))"
proof -
  from assms have len: "length results = 11" by (rule results_length)
  have "input (results ! 9) = map input results ! 9" using len by simp
  also have "\<dots> = test_cases ! 9" by (simp add: main_loop_results(1) [OF assms])
  finally show ?thesis using len by (simp add: test_cases_9)
qed

lemma picky_tok_loop:
  "fst (main_loop picky_tok test_cases [] w) = Inl (LibraryError ''ValueError'')"
  by (simp add: test_cases_def lit_def picky_tok_def whole_tok_call whole_tok_convert Let_def)

lemma results_7:
  assumes "fst (main_loop tok test_cases [] w) = Inr results"
  shows "results ! 7 \<in> set results \<and> input (results ! 7) = []"
proof -
  from assms have len: "length results = 11" by (rule results_length)
  have "input (results ! 7) = map input results ! 7" using len by simp
  also have "\<dots> = test_cases ! 7" by (simp add: main_loop_results(1) [OF assms])
  finally show ?thesis using len by (simp add: test_cases_7)
qed

lemma prefix_tok_call:
  "tok_call prefix_tok t True False =
     Inr \<lparr>input_ids = 6 # (if t = [] then [] else [int (length t)]),
          offset_mapping = (0, 0) # (if t = [] then [] else [(0, int (length t))])\<rparr>"
  by (simp add: prefix_tok_def Let_def)

lemma prefix_tok_convert:
  "convert_ids_to_tokens prefix_tok ids
     = Inr (map (\<lambda>i. if i = 6 then [9601] else 116 # int_str i) ids)"
  by (simp add: prefix_tok_def)

lemma prefix_tok_loop:
  "\<exists>results. fst (main_loop prefix_tok texts acc w) = Inr results"
  by (induction texts arbitrary: acc w) (simp_all add: prefix_tok_call prefix_tok_convert Let_def)

lemma whole_document_cp1252:
  "\<exists>bs. text_bytes windows_cp1252 (document (map whole_record test_cases)) = Inr bs"
proof -
  have "list_all (\<lambda>c. \<exists>b. encode_char CP1252 c = Inr b)
          (translate_newlines [13, 10] (document (map whole_record test_cases)))"
    by (simp add: document_defs translate_newlines_def cp1252_char_def cp1252_table_def)
  from str_encode_total [OF this] show ?thesis
    by (simp add: text_bytes_def windows_cp1252_def)
qed

lemma main_whole_cp1252: "fst (main load_whole windows_cp1252 world0) = Inr ()"
proof -
  obtain bs where bs: "text_bytes windows_cp1252 (document (map whole_record test_cases)) = Inr bs"
    using whole_document_cp1252 by blast
  have loop: "fst (main_loop whole_tok test_cases [] (log (FromPretrained model_name) world0))
                = Inr (map whole_record test_cases)"
    by (simp add: whole_tok_loop_records)
  have "''testdata'' \<in> dirs world0" by (simp add: world0_def)
  from main_succeeds [where fp = load_whole, OF load_whole_model loop this bs]
  show ?thesis by simp
qed

lemma test_cases_8: "test_cases ! 8 = [99, 97, 102, 195, 169]"
  by (simp add: test_cases_def lit_def)

lemma results_hold_195:
  assumes "fst (main_loop tok test_cases [] w) = Inr results"
  shows "results ! 8 \<in> set results \<and> 195 \<in> set (input (results ! 8))"
proof -
  from assms have len: "length results = 11" by (rule results_length)
  have "input (results ! 8) = map input results ! 8" using len by simp
  also have "\<dots> = test_cases ! 8" by (simp add: main_loop_results(1) [OF assms])
  finally show ?thesis using len by (simp add: test_cases_8)
qed

section \<open>Properties of the records\<close>

text \<open>
  C1. Every record the loop produces is aligned: \<^verbatim>\<open>len(token_ids) == len(offsets) ==
  len(tokens)\<close>, provided the tokenizer's encode call returns as many offsets as ids
  and its resolution call one string per id. This holds for any list of texts, so in
  particular for the fixed one.
\<close>

theorem C1_sequences_aligned:
  assumes enc_len: "\<forall>t enc. tok_call tok t True False = Inr enc
                      \<longrightarrow> length (input_ids enc) = length (offset_mapping enc)"
    and conv_len: "\<forall>ids ts. convert_ids_to_tokens tok ids = Inr ts \<longrightarrow> length ts = length ids"
    and run: "fst (main_loop tok texts [] w) = Inr results"
    and r: "r \<in> set results"
  shows "length (token_ids r) = length (offsets r) \<and> length (offsets r) = length (tokens r)"
proof -
  from main_loop_results(2) [OF run] r have "made_by tok r" by blast
  then have e: "tok_call tok (input r) True False
                  = Inr \<lparr>input_ids = token_ids r, offset_mapping = offsets r\<rparr>"
    and c: "convert_ids_to_tokens tok (token_ids r) = Inr (tokens r)"
    by (simp_all add: made_by_def)
  from enc_len e have "length (token_ids r) = length (offsets r)" by fastforce
  moreover from conv_len c have "length (tokens r) = length (token_ids r)" by blast
  ultimately show ?thesis by simp
qed

theorem C1_sequences_aligned_witness:
  "\<exists>results. fst (main_loop whole_tok test_cases [] world0) = Inr results \<and>
     length results = 11 \<and>
     list_all (\<lambda>r. length (token_ids r) = length (offsets r) \<and>
                    length (offsets r) = length (tokens r)) results"
proof -
  obtain results where run: "fst (main_loop whole_tok test_cases [] world0) = Inr results"
    using whole_tok_loop by blast
  have a: "\<forall>t enc. tok_call whole_tok t True False = Inr enc
             \<longrightarrow> length (input_ids enc) = length (offset_mapping enc)"
    by (auto simp: whole_tok_call)
  have b: "\<forall>ids ts. convert_ids_to_tokens whole_tok ids = Inr ts \<longrightarrow> length ts = length ids"
    by (auto simp: whole_tok_convert)
  have "\<forall>r\<in>set results. length (token_ids r) = length (offsets r) \<and>
                           length (offsets r) = length (tokens r)"
    using C1_sequences_aligned [OF a b run] by blast
  moreover have "length results = 11"
    using main_loop_results(1) [OF run] length_test_cases by (metis length_map)
  ultimately show ?thesis using run by (auto simp: list_all_iff)
qed

text \<open>
  C4. For every text the loop calls the tokenizer's encode operation once, with the offset
  mapping requested and special tokens disabled, and then the id-to-token resolution on
  the ids that call returned; the log holds exactly these two calls per text, in order,
  and the record's three sequences are what the two calls returned.
\<close>

theorem C4_one_encode_one_resolution_per_input:
  assumes run: "fst (main_loop tok texts [] w) = Inr results"
  shows "map input results = texts \<and>
    (\<forall>r\<in>set results.
       tok_call tok (input r) True False
         = Inr \<lparr>input_ids = token_ids r, offset_mapping = offsets r\<rparr> \<and>
       convert_ids_to_tokens tok (token_ids r) = Inr (tokens r)) \<and>
    new_calls w (snd (main_loop tok texts [] w))
      = concat (map (\<lambda>r. [TokCall (input r) True False, ConvertIdsToTokens (token_ids r)])
                 results) \<and>
    filter is_encode_call (new_calls w (snd (main_loop tok texts [] w)))
      = map (\<lambda>t. TokCall t True False) texts"
proof -
  note res = main_loop_results [OF run]
  have calls: "new_calls w (snd (main_loop tok texts [] w)) = concat (map record_calls results)"
    by (simp add: res(3))
  have "filter is_encode_call (new_calls w (snd (main_loop tok texts [] w)))
          = map (\<lambda>t. TokCall t True False) (map input results)"
    by (simp add: calls encode_calls_of_records comp_def)
  then have enc: "filter is_encode_call (new_calls w (snd (main_loop tok texts [] w)))
          = map (\<lambda>t. TokCall t True False) texts"
    by (simp only: res(1))
  from res(2) have fields: "\<forall>r\<in>set results.
       tok_call tok (input r) True False
         = Inr \<lparr>input_ids = token_ids r, offset_mapping = offsets r\<rparr> \<and>
       convert_ids_to_tokens tok (token_ids r) = Inr (tokens r)"
    by (simp add: made_by_def)
  from calls have "new_calls w (snd (main_loop tok texts [] w))
      = concat (map (\<lambda>r. [TokCall (input r) True False, ConvertIdsToTokens (token_ids r)])
                 results)"
    by (simp add: record_calls_def [abs_def])
  with res(1) fields enc show ?thesis by blast
qed

theorem C4_one_encode_one_resolution_per_input_witness:
  "\<exists>results. fst (main_loop whole_tok test_cases [] world0) = Inr results \<and>
     map input results = test_cases \<and>
     filter is_encode_call (new_calls world0 (snd (main_loop whole_tok test_cases [] world0)))
       = map (\<lambda>t. TokCall t True False) test_cases \<and>
     length (new_calls world0 (snd (main_loop whole_tok test_cases [] world0))) = 22"
proof -
  obtain results where run: "fst (main_loop whole_tok test_cases [] world0) = Inr results"
    using whole_tok_loop by blast
  note c4 = C4_one_encode_one_resolution_per_input [OF run]
  from c4 have "length results = 11"
    using length_test_cases by (metis length_map)
  moreover from c4 have "length (new_calls world0 (snd (main_loop whole_tok test_cases [] world0)))
      = 2 * length results"
    by (simp add: length_concat comp_def sum_list_triv)
  ultimately show ?thesis using run c4 by auto
qed

text \<open>
  C8. The offsets of a record are those of the encode call, unchanged; so when the
  tokenizer keeps its offset contract (spans that do not go backwards, each with
  \<open>start \<le> end \<le> len(text)\<close>), every record's offsets are non-decreasing and lie
  inside its input.
\<close>

theorem C8_offsets_within_input:
  assumes contract: "\<forall>t enc. tok_call tok t True False = Inr enc
                        \<longrightarrow> offsets_ok t (offset_mapping enc)"
    and run: "fst (main_loop tok texts [] w) = Inr results"
    and r: "r \<in> set results"
  shows "(\<exists>enc. tok_call tok (input r) True False = Inr enc \<and> offsets r = offset_mapping enc) \<and>
    sorted (map fst (offsets r)) \<and> sorted (map snd (offsets r)) \<and>
    (\<forall>p\<in>set (offsets r). fst p \<le> snd p \<and> snd p \<le> int (length (input r)))"
proof -
  from main_loop_results(2) [OF run] r have "made_by tok r" by blast
  then have e: "tok_call tok (input r) True False
                  = Inr \<lparr>input_ids = token_ids r, offset_mapping = offsets r\<rparr>"
    by (simp add: made_by_def)
  with contract have "offsets_ok (input r) (offsets r)" by fastforce
  with e show ?thesis
    by (auto simp: offsets_ok_def nondecreasing_def list_all_iff)
qed

theorem C8_offsets_within_input_witness:
  "\<exists>results. fst (main_loop whole_tok test_cases [] world0) = Inr results \<and>
     length results = 11 \<and>
     list_all (\<lambda>r. offsets_ok (input r) (offsets r)) results"
proof -
  obtain results where run: "fst (main_loop whole_tok test_cases [] world0) = Inr results"
    using whole_tok_loop by blast
  have a: "\<forall>t enc. tok_call whole_tok t True False = Inr enc
             \<longrightarrow> offsets_ok t (offset_mapping enc)"
    by (auto simp: whole_tok_call offsets_ok_def nondecreasing_def)
  have "\<forall>r\<in>set results. offsets_ok (input r) (offsets r)"
    using C8_offsets_within_input [OF a run]
    by (auto simp: offsets_ok_def nondecreasing_def list_all_iff)
  moreover have "length results = 11"
    using main_loop_results(1) [OF run] length_test_cases by (metis length_map)
  ultimately show ?thesis using run by (auto simp: list_all_iff)
qed

text \<open>
  C3. The record of the empty input, the eighth of the list, holds what the tokenizer
  returns for the empty text when called with the offsets requested and special tokens
  disabled, and the resolution of those ids. Its three sequences are empty exactly when
  that call returns no ids and no offsets and no ids resolve to no tokens: disabling
  special tokens does not by itself make them empty.
\<close>

theorem C3_empty_input_record_is_what_the_tokenizer_returns:
  assumes run: "fst (main_loop tok test_cases [] w) = Inr results"
  shows "input (results ! 7) = [] \<and>
    (\<exists>enc. tok_call tok [] True False = Inr enc \<and>
           token_ids (results ! 7) = input_ids enc \<and>
           offsets (results ! 7) = offset_mapping enc \<and>
           convert_ids_to_tokens tok (input_ids enc) = Inr (tokens (results ! 7)) \<and>
           ((token_ids (results ! 7) = [] \<and> offsets (results ! 7) = [] \<and>
             tokens (results ! 7) = [])
            = (input_ids enc = [] \<and> offset_mapping enc = [] \<and>
               convert_ids_to_tokens tok [] = Inr [])))"
proof -
  from results_7 [OF run] have r: "results ! 7 \<in> set results" and i: "input (results ! 7) = []"
    by simp_all
  from main_loop_results(2) [OF run] r have "made_by tok (results ! 7)" by blast
  with i have e: "tok_call tok [] True False
                  = Inr \<lparr>input_ids = token_ids (results ! 7),
                         offset_mapping = offsets (results ! 7)\<rparr>"
    and c: "convert_ids_to_tokens tok (token_ids (results ! 7)) = Inr (tokens (results ! 7))"
    by (simp_all add: made_by_def)
  let ?enc = "\<lparr>input_ids = token_ids (results ! 7), offset_mapping = offsets (results ! 7)\<rparr>"
  have "(token_ids (results ! 7) = [] \<and> offsets (results ! 7) = [] \<and>
             tokens (results ! 7) = [])
            = (input_ids ?enc = [] \<and> offset_mapping ?enc = [] \<and>
               convert_ids_to_tokens tok [] = Inr [])"
    using c by auto
  with e c i show ?thesis
    by (intro conjI exI [of _ ?enc]) simp_all
qed

theorem C3_empty_input_record_is_what_the_tokenizer_returns_witness:
  "\<exists>results. fst (main_loop whole_tok test_cases [] world0) = Inr results \<and>
     input (results ! 7) = [] \<and> token_ids (results ! 7) = [] \<and>
     offsets (results ! 7) = [] \<and> tokens (results ! 7) = []"
proof -
  obtain results where run: "fst (main_loop whole_tok test_cases [] world0) = Inr results"
    using whole_tok_loop by blast
  from C3_empty_input_record_is_what_the_tokenizer_returns [OF run]
  obtain enc where
    "input (results ! 7) = []"
    "tok_call whole_tok [] True False = Inr enc"
    "(token_ids (results ! 7) = [] \<and> offsets (results ! 7) = [] \<and>
             tokens (results ! 7) = [])
            = (input_ids enc = [] \<and> offset_mapping enc = [] \<and>
               convert_ids_to_tokens whole_tok [] = Inr [])"
    by blast
  then show ?thesis using run
    by (auto simp: whole_tok_call whole_tok_convert)
qed

text \<open>
  A tokenizer that puts a word-boundary token before every text, special tokens or not,
  gives the empty input a record with one id, one span and one token.
\<close>

theorem C3_empty_input_counterexample:
  "\<exists>results. fst (main_loop prefix_tok test_cases [] world0) = Inr results \<and>
     input (results ! 7) = [] \<and>
     token_ids (results ! 7) = [6] \<and>
     offsets (results ! 7) = [(0, 0)] \<and>
     tokens (results ! 7) = [[9601]]"
proof -
  obtain results where run: "fst (main_loop prefix_tok test_cases [] world0) = Inr results"
    using prefix_tok_loop by blast
  from results_7 [OF run] have r: "results ! 7 \<in> set results" and i: "input (results ! 7) = []"
    by simp_all
  from main_loop_results(2) [OF run] r have "made_by prefix_tok (results ! 7)" by blast
  with i have ids: "token_ids (results ! 7) = [6]" and spans: "offsets (results ! 7) = [(0, 0)]"
    and c: "convert_ids_to_tokens prefix_tok (token_ids (results ! 7)) = Inr (tokens (results ! 7))"
    by (auto simp: made_by_def prefix_tok_call)
  from c have "tokens (results ! 7) = [[9601]]"
    by (simp add: ids prefix_tok_convert)
  with run i ids spans show ?thesis by blast
qed

section \<open>Properties of a run\<close>

text \<open>
  C7. Failures propagate. If the tokenizer cannot be loaded, \<^verbatim>\<open>main\<close> ends with that
  exception after the one call to \<^verbatim>\<open>from_pretrained\<close>, and the process exits with
  status 1. If the directory of the output file does not exist, \<^verbatim>\<open>main\<close> ends with
  \<^verbatim>\<open>FileNotFoundError\<close> after a single call to \<^verbatim>\<open>open\<close>, no file is created and
  nothing is printed. Whatever the failure, the exit status is 1 and nothing is printed:
  no step is tried again and no step after the failing one is run.
\<close>

theorem C7_failures_propagate:
  "(fp model_name = Inl e \<longrightarrow>
      main fp pf w = (Inl e, log (FromPretrained model_name) w) \<and>
      exit_status fp pf w = 1) \<and>
   (fp model_name = Inr tok \<and>
    fst (main_loop tok test_cases [] (log (FromPretrained model_name) w)) = Inr results \<and>
    dirname golden_path \<notin> dirs w \<longrightarrow>
      fst (main fp pf w) = Inl FileNotFoundError \<and>
      exit_status fp pf w = 1 \<and>
      new_calls w (snd (main fp pf w))
        = [FromPretrained model_name] @ concat (map record_calls results)
          @ [OpenFile golden_path ''w''] \<and>
      files (snd (main fp pf w)) = files w \<and>
      stdout (snd (main fp pf w)) = stdout w) \<and>
   (fst (main fp pf w) = Inl e' \<longrightarrow>
      exit_status fp pf w = 1 \<and> stdout (snd (main fp pf w)) = stdout w)"
proof (intro conjI impI)
  assume "fp model_name = Inl e"
  from main_load_fails [where fp = fp, OF this]
  show "main fp pf w = (Inl e, log (FromPretrained model_name) w)"
    and "exit_status fp pf w = 1"
    by (simp_all add: exit_status_def)
next
  assume a: "fp model_name = Inr tok \<and>
    fst (main_loop tok test_cases [] (log (FromPretrained model_name) w)) = Inr results \<and>
    dirname golden_path \<notin> dirs w"
  then have "''testdata'' \<notin> dirs w" by (simp add: dirname_golden_path)
  with a have m: "main fp pf w =
     (Inl FileNotFoundError,
      w\<lparr>calls := calls w @ [FromPretrained model_name] @ concat (map record_calls results)
                 @ [OpenFile golden_path ''w'']\<rparr>)"
    using main_open_fails [where fp = fp] by blast
  show "fst (main fp pf w) = Inl FileNotFoundError"
    and "exit_status fp pf w = 1"
    and "new_calls w (snd (main fp pf w))
        = [FromPretrained model_name] @ concat (map record_calls results)
          @ [OpenFile golden_path ''w'']"
    and "files (snd (main fp pf w)) = files w"
    and "stdout (snd (main fp pf w)) = stdout w"
    by (simp_all add: m exit_status_def)
next
  assume a: "fst (main fp pf w) = Inl e'"
  then show "exit_status fp pf w = 1" by (simp add: exit_status_def)
  from a show "stdout (snd (main fp pf w)) = stdout w" by (rule main_failure_prints_nothing)
qed

theorem C7_failures_propagate_witness:
  "main load_fails posix_utf8 world0
     = (Inl (LibraryError ''OSError''), log (FromPretrained model_name) world0) \<and>
   exit_status load_fails posix_utf8 world0 = 1 \<and>
   fst (main load_whole posix_utf8 world_nodir) = Inl FileNotFoundError \<and>
   exit_status load_whole posix_utf8 world_nodir = 1 \<and>
   files (snd (main load_whole posix_utf8 world_nodir)) = files world_nodir \<and>
   stdout (snd (main load_whole posix_utf8 world_nodir)) = stdout world_nodir \<and>
   exit_status load_whole posix_latin1 world0 = 1 \<and>
   stdout (snd (main load_whole posix_latin1 world0)) = stdout world0"
proof -
  have latin1: "fst (main load_whole posix_latin1 world0) = Inl UnicodeEncodeError"
  proof -
    have "fst (main_loop whole_tok test_cases [] (log (FromPretrained model_name) world0))
            = Inr (map whole_record test_cases)"
      by (simp add: whole_tok_loop_records)
    moreover from results_hold_8211 [OF this]
    have "text_bytes posix_latin1 (document (map whole_record test_cases))
            = Inl UnicodeEncodeError"
      by (intro text_bytes_unencodable
            [where c = 8211 and r = "map whole_record test_cases ! 9" and e = UnicodeEncodeError])
         (simp_all add: posix_latin1_def)
    moreover have "''testdata'' \<in> dirs world0" by (simp add: world0_def)
    ultimately show ?thesis
      using main_write_fails [where fp = load_whole, OF load_whole_model] by simp
  qed
  from C7_failures_propagate [of load_whole _ posix_latin1 world0 _ _ UnicodeEncodeError] latin1
  have third: "exit_status load_whole posix_latin1 world0 = 1 \<and>
   stdout (snd (main load_whole posix_latin1 world0)) = stdout world0"
    by blast
  have loop: "fst (main_loop whole_tok test_cases [] (log (FromPretrained model_name) world_nodir))
                = Inr (map whole_record test_cases)"
    by (simp add: whole_tok_loop_records)
  have nodir: "dirname golden_path \<notin> dirs world_nodir"
    by (simp add: world_nodir_def)
  from C7_failures_propagate [of load_fails "LibraryError ''OSError''" posix_utf8 world0]
    load_fails_model
  have "main load_fails posix_utf8 world0
     = (Inl (LibraryError ''OSError''), log (FromPretrained model_name) world0) \<and>
   exit_status load_fails posix_utf8 world0 = 1"
    by blast
  moreover
  from C7_failures_propagate [of load_whole _ posix_utf8 world_nodir whole_tok
      "map whole_record test_cases"]
    load_whole_model loop nodir
  have "fst (main load_whole posix_utf8 world_nodir) = Inl FileNotFoundError \<and>
   exit_status load_whole posix_utf8 world_nodir = 1 \<and>
   files (snd (main load_whole posix_utf8 world_nodir)) = files world_nodir \<and>
   stdout (snd (main load_whole posix_utf8 world_nodir)) = stdout world_nodir"
    by blast
  ultimately show ?thesis using third by blast
qed

text \<open>
  C10. The output file is opened only after the tokenizer has been loaded and every one
  of the 11 inputs has been encoded and resolved. If loading fails the only call made is
  the one to \<^verbatim>\<open>from_pretrained\<close>; if a library call of the loop raises, \<^verbatim>\<open>main\<close> ends
  with that exception and has made tokenizer calls only. In both cases the files are what
  they were: nothing is created, nothing is changed. Whenever the log of a run holds the
  call to \<^verbatim>\<open>open\<close>, it is the last call made, after the two calls for each of the 11
  records.
\<close>

theorem C10_file_untouched_until_all_tokenized:
  "(fp model_name = Inl e \<longrightarrow>
      files (snd (main fp pf w)) = files w \<and>
      new_calls w (snd (main fp pf w)) = [FromPretrained model_name]) \<and>
   (fp model_name = Inr tok \<and>
    fst (main_loop tok test_cases [] (log (FromPretrained model_name) w)) = Inl e \<longrightarrow>
      fst (main fp pf w) = Inl e \<and>
      files (snd (main fp pf w)) = files w \<and>
      (\<exists>cs. new_calls w (snd (main fp pf w)) = FromPretrained model_name # cs \<and>
            list_all is_tokenizer_call cs)) \<and>
   (OpenFile golden_path ''w'' \<in> set (new_calls w (snd (main fp pf w))) \<longrightarrow>
      (\<exists>tok results.
         fp model_name = Inr tok \<and>
         fst (main_loop tok test_cases [] (log (FromPretrained model_name) w)) = Inr results \<and>
         length results = 11 \<and>
         new_calls w (snd (main fp pf w))
           = [FromPretrained model_name] @ concat (map record_calls results)
             @ [OpenFile golden_path ''w'']))"
proof (intro conjI impI)
  assume "fp model_name = Inl e"
  from main_load_fails [where fp = fp, OF this]
  show "files (snd (main fp pf w)) = files w"
    and "new_calls w (snd (main fp pf w)) = [FromPretrained model_name]"
    by (simp_all add: log_def new_calls_def)
next
  assume a: "fp model_name = Inr tok \<and>
    fst (main_loop tok test_cases [] (log (FromPretrained model_name) w)) = Inl e"
  let ?w1 = "log (FromPretrained model_name) w"
  from a have m: "main fp pf w = (Inl e, snd (main_loop tok test_cases [] ?w1))"
    using main_loop_fails [where fp = fp] by blast
  show "fst (main fp pf w) = Inl e" by (simp add: m)
  show "files (snd (main fp pf w)) = files w"
    by (simp add: m main_loop_frame log_def)
  from main_loop_calls [of tok test_cases "[]" ?w1] obtain cs where
    "calls (snd (main_loop tok test_cases [] ?w1)) = calls ?w1 @ cs" "list_all is_tokenizer_call cs"
    by blast
  then have "new_calls w (snd (main fp pf w)) = FromPretrained model_name # cs"
    by (intro new_calls_append2) (simp add: m log_def)
  with \<open>list_all is_tokenizer_call cs\<close>
  show "\<exists>cs. new_calls w (snd (main fp pf w)) = FromPretrained model_name # cs \<and>
            list_all is_tokenizer_call cs"
    by blast
next
  assume opened: "OpenFile golden_path ''w'' \<in> set (new_calls w (snd (main fp pf w)))"
  show "\<exists>tok results.
         fp model_name = Inr tok \<and>
         fst (main_loop tok test_cases [] (log (FromPretrained model_name) w)) = Inr results \<and>
         length results = 11 \<and>
         new_calls w (snd (main fp pf w))
           = [FromPretrained model_name] @ concat (map record_calls results)
             @ [OpenFile golden_path ''w'']"
  proof (cases rule: main_cases [of fp pf w])
    case (load_fails e)
    with opened show ?thesis by (simp add: log_def new_calls_def)
  next
    case (loop_fails tok e)
    let ?w1 = "log (FromPretrained model_name) w"
    from main_loop_calls [of tok test_cases "[]" ?w1] obtain cs where
      cs: "calls (snd (main_loop tok test_cases [] ?w1)) = calls ?w1 @ cs"
        "list_all is_tokenizer_call cs"
      by blast
    then have "new_calls w (snd (main fp pf w)) = FromPretrained model_name # cs"
      by (intro new_calls_append2) (simp add: loop_fails(3) log_def)
    with opened cs(2) show ?thesis by (auto simp: list_all_iff)
  next
    case (open_fails tok results)
    then show ?thesis by (auto simp: results_length new_calls_def)
  next
    case (write_fails tok results e)
    then show ?thesis by (auto simp: results_length new_calls_def)
  next
    case (succeeds tok results bs)
    then show ?thesis by (auto simp: results_length new_calls_def)
  qed
qed

theorem C10_file_untouched_until_all_tokenized_witness:
  "files (snd (main load_fails posix_utf8 world0)) = files world0 \<and>
   fst (main load_picky posix_utf8 world0) = Inl (LibraryError ''ValueError'') \<and>
   files (snd (main load_picky posix_utf8 world0)) = files world0 \<and>
   (\<exists>results. length results = 11 \<and>
      new_calls world0 (snd (main load_whole posix_utf8 world0))
        = [FromPretrained model_name] @ concat (map record_calls results)
          @ [OpenFile golden_path ''w''])"
proof -
  obtain bs where bs: "text_bytes posix_utf8 (document (map whole_record test_cases)) = Inr bs"
    using whole_document_utf8 by blast
  have loop: "fst (main_loop whole_tok test_cases [] (log (FromPretrained model_name) world0))
                = Inr (map whole_record test_cases)"
    by (simp add: whole_tok_loop_records)
  have "''testdata'' \<in> dirs world0" by (simp add: world0_def)
  from main_succeeds [where fp = load_whole, OF load_whole_model loop this bs]
  have "OpenFile golden_path ''w''
          \<in> set (new_calls world0 (snd (main load_whole posix_utf8 world0)))"
    by (simp add: new_calls_def)
  with C10_file_untouched_until_all_tokenized [of load_whole _ posix_utf8 world0]
  have opened: "\<exists>results. length results = 11 \<and>
      new_calls world0 (snd (main load_whole posix_utf8 world0))
        = [FromPretrained model_name] @ concat (map record_calls results)
          @ [OpenFile golden_path ''w'']"
    by blast
  from C10_file_untouched_until_all_tokenized
         [of load_fails "LibraryError ''OSError''" posix_utf8 world0]
    load_fails_model
  have "files (snd (main load_fails posix_utf8 world0)) = files world0" by blast
  moreover
  have "load_picky model_name = Inr picky_tok" by (simp add: load_picky_def)
  with C10_file_untouched_until_all_tokenized
         [of load_picky "LibraryError ''ValueError''" posix_utf8 world0 picky_tok]
    picky_tok_loop
  have "fst (main load_picky posix_utf8 world0) = Inl (LibraryError ''ValueError'') \<and>
   files (snd (main load_picky posix_utf8 world0)) = files world0"
    by blast
  ultimately show ?thesis using opened by blast
qed

text \<open>
  C6. The bytes written are decided by the platform and by what the tokenizer answers to
  the calls of the script. Two runs that both return normally on the same platform (same
  preferred encoding, same line separator), with tokenizers that give the same answers to
  the encode call on each of the 11 inputs and to the resolution of the ids returned (in
  particular with the same tokenizer), leave the same bytes in the output file, whatever
  the worlds they started in: the files already there, what was printed, the calls made
  before.
\<close>

theorem C6_same_answers_same_platform_same_bytes:
  assumes tok1: "fp1 model_name = Inr tok1" and tok2: "fp2 model_name = Inr tok2"
    and same_enc: "\<forall>t\<in>set test_cases. tok_call tok1 t True False = tok_call tok2 t True False"
    and same_conv: "\<forall>t\<in>set test_cases. \<forall>enc. tok_call tok1 t True False = Inr enc
           \<longrightarrow> convert_ids_to_tokens tok1 (input_ids enc)
               = convert_ids_to_tokens tok2 (input_ids enc)"
    and run1: "fst (main fp1 pf w1) = Inr ()" and run2: "fst (main fp2 pf w2) = Inr ()"
  shows "\<exists>bs. files (snd (main fp1 pf w1)) golden_path = Some (Data bs) \<and>
              files (snd (main fp2 pf w2)) golden_path = Some (Data bs)"
proof -
  from run1 obtain tok results bs where
    "fp1 model_name = Inr tok" and
    "fst (main_loop tok test_cases [] (log (FromPretrained model_name) w1)) = Inr results" and
    dir1: "''testdata'' \<in> dirs w1" and
    bs: "text_bytes pf (document results) = Inr bs"
    by (rule main_Inr_elim)
  with tok1
  have loop1: "fst (main_loop tok1 test_cases [] (log (FromPretrained model_name) w1)) = Inr results"
    by simp
  from run2 have dir2: "''testdata'' \<in> dirs w2"
    by (rule main_Inr_elim)
  from main_loop_agree [OF same_enc same_conv, of "[]" "log (FromPretrained model_name) w1"
      "log (FromPretrained model_name) w2"] loop1
  have loop2: "fst (main_loop tok2 test_cases [] (log (FromPretrained model_name) w2)) = Inr results"
    by simp
  have "files (snd (main fp1 pf w1)) golden_path = Some (Data bs)"
    by (simp add: main_succeeds [where fp = fp1, OF tok1 loop1 dir1 bs])
  moreover have "files (snd (main fp2 pf w2)) golden_path = Some (Data bs)"
    by (simp add: main_succeeds [where fp = fp2, OF tok2 loop2 dir2 bs])
  ultimately show ?thesis by blast
qed

theorem C6_same_answers_same_platform_same_bytes_witness:
  "\<exists>bs. files (snd (main load_whole posix_utf8 world0)) golden_path = Some (Data bs) \<and>
        files (snd (main load_whole posix_utf8 (snd (main load_whole posix_utf8 world0))))
          golden_path = Some (Data bs)"
  using C6_same_answers_same_platform_same_bytes
    [where ?fp1.0 = load_whole and ?fp2.0 = load_whole and ?tok1.0 = whole_tok
       and ?tok2.0 = whole_tok, OF load_whole_model load_whole_model _ _
       main_whole_utf8 main_second_run_utf8]
  by simp

text \<open>
  The same tokenizer alone is not enough. With the same tokenizer and the same starting
  world, a run on a platform with UTF-8 and the line separator \<^verbatim>\<open>"\n"\<close> and a run on a
  platform with code page 1252 and the line separator \<^verbatim>\<open>"\r\n"\<close> both return normally
  and leave different bytes: the second byte of the file is \<^verbatim>\<open>0x0A\<close> in one and
  \<^verbatim>\<open>0x0D\<close> in the other.
\<close>

theorem C6_platform_counterexample:
  "fst (main load_whole posix_utf8 world0) = Inr () \<and>
   fst (main load_whole windows_cp1252 world0) = Inr () \<and>
   files (snd (main load_whole posix_utf8 world0)) golden_path
     \<noteq> files (snd (main load_whole windows_cp1252 world0)) golden_path"
proof -
  have loop: "fst (main_loop whole_tok test_cases [] (log (FromPretrained model_name) world0))
                = Inr (map whole_record test_cases)"
    by (simp add: whole_tok_loop_records)
  have dir: "''testdata'' \<in> dirs world0" by (simp add: world0_def)
  have "map whole_record test_cases \<noteq> []" by (simp add: test_cases_def)
  from document_starts [OF this] obtain rest where
    doc: "document (map whole_record test_cases) = 91 # 10 # rest"
    by blast
  obtain bs1 where bs1: "text_bytes posix_utf8 (document (map whole_record test_cases)) = Inr bs1"
    using whole_document_utf8 by blast
  obtain bs2 where bs2: "text_bytes windows_cp1252 (document (map whole_record test_cases)) = Inr bs2"
    using whole_document_cp1252 by blast
  from bs1 have "bs1 ! 1 = 10"
    by (auto simp: doc text_bytes_def posix_utf8_def translate_newlines_def utf8_char_def
          split: sum.splits)
  moreover from bs2 have "bs2 ! 1 = 13"
    by (auto simp: doc text_bytes_def windows_cp1252_def translate_newlines_def cp1252_char_def
          split: sum.splits)
  ultimately have "bs1 \<noteq> bs2" by auto
  moreover have "files (snd (main load_whole posix_utf8 world0)) golden_path = Some (Data bs1)"
    by (simp add: main_succeeds [where fp = load_whole, OF load_whole_model loop dir bs1])
  moreover have "files (snd (main load_whole windows_cp1252 world0)) golden_path = Some (Data bs2)"
    by (simp add: main_succeeds [where fp = load_whole, OF load_whole_model loop dir bs2])
  ultimately show ?thesis
    using main_whole_utf8 main_whole_cp1252 by simp
qed

text \<open>
  C5. The path is fixed, the JSON text has an indent of 2 and keeps characters outside
  ASCII as they are; but the script opens the file without naming an encoding, so the
  bytes are those of the platform's preferred encoding, and UTF-8 only where that is
  UTF-8. On a platform whose preferred encoding is Latin-1 or ASCII no run returns
  normally, whatever the tokenizer: the fixed inputs hold the character \<^verbatim>\<open>U+2013\<close>, which
  the JSON text keeps and the codec cannot encode, so once the records are built and the
  file is opened the write raises \<^verbatim>\<open>UnicodeEncodeError\<close> and leaves the file partial. On
  a platform whose preferred encoding is code page 1252 a run may well return normally,
  and then the bytes in the file are the code page's and not the UTF-8 encoding of the
  JSON text: the input \<^verbatim>\<open>U+00C3\<close> takes one byte in the file and two in UTF-8.
\<close>

theorem C5_bytes_follow_the_locale:
  "(preferred_encoding pf = Latin1 \<or> preferred_encoding pf = ASCII \<longrightarrow>
      fst (main fp pf w) \<noteq> Inr () \<and>
      (fp model_name = Inr tok \<and>
       fst (main_loop tok test_cases [] (log (FromPretrained model_name) w)) = Inr results \<and>
       dirname golden_path \<in> dirs w \<longrightarrow>
         fst (main fp pf w) = Inl UnicodeEncodeError \<and>
         files (snd (main fp pf w)) golden_path = Some Partial)) \<and>
   (preferred_encoding pf = CP1252 \<and> fst (main fp pf w) = Inr () \<longrightarrow>
      (\<exists>rs bs.
         map input rs = test_cases \<and>
         files (snd (main fp pf w)) golden_path = Some (Data bs) \<and>
         str_encode CP1252
           (translate_newlines (linesep pf) (dumps 2 0 (PList (map golden_obj rs)))) = Inr bs \<and>
         str_encode UTF8
           (translate_newlines (linesep pf) (dumps 2 0 (PList (map golden_obj rs)))) \<noteq> Inr bs))"
proof (intro conjI impI)
  assume narrow: "preferred_encoding pf = Latin1 \<or> preferred_encoding pf = ASCII"
  then have bad: "encode_char (preferred_encoding pf) 8211 = Inl UnicodeEncodeError"
    by auto
  have fails: "text_bytes pf (document rs) = Inl UnicodeEncodeError"
    if "fst (main_loop tk test_cases [] (log (FromPretrained model_name) w)) = Inr rs" for tk rs
    using results_hold_8211 [OF that] bad
    by (intro text_bytes_unencodable [where c = 8211 and r = "rs ! 9"]) simp_all
  show "fst (main fp pf w) \<noteq> Inr ()"
  proof
    assume "fst (main fp pf w) = Inr ()"
    then obtain tk rs bs where
      "fst (main_loop tk test_cases [] (log (FromPretrained model_name) w)) = Inr rs"
      "text_bytes pf (document rs) = Inr bs"
      by (rule main_Inr_elim)
    with fails show False by simp
  qed
  assume a: "fp model_name = Inr tok \<and>
     fst (main_loop tok test_cases [] (log (FromPretrained model_name) w)) = Inr results \<and>
     dirname golden_path \<in> dirs w"
  then have tok: "fp model_name = Inr tok"
    and loop: "fst (main_loop tok test_cases [] (log (FromPretrained model_name) w)) = Inr results"
    and dir: "''testdata'' \<in> dirs w"
    by (simp_all add: dirname_golden_path)
  from main_write_fails [where fp = fp, OF tok loop dir fails [OF loop]]
  show "fst (main fp pf w) = Inl UnicodeEncodeError"
    and "files (snd (main fp pf w)) golden_path = Some Partial"
    by simp_all
next
  assume a: "preferred_encoding pf = CP1252 \<and> fst (main fp pf w) = Inr ()"
  then obtain tk rs bs where
    tk: "fp model_name = Inr tk" and
    loop: "fst (main_loop tk test_cases [] (log (FromPretrained model_name) w)) = Inr rs" and
    dir: "''testdata'' \<in> dirs w" and
    bs: "text_bytes pf (document rs) = Inr bs"
    by (auto elim: main_Inr_elim)
  let ?t = "translate_newlines (linesep pf) (document rs)"
  from bs a have cp: "str_encode CP1252 ?t = Inr bs"
    by (simp add: text_bytes_def)
  then have len: "length bs = length ?t" by (rule str_encode_cp1252_length)
  from results_hold_195 [OF loop] have "195 \<in> set (document rs)"
    by (intro document_input_mem [where r = "rs ! 8"]) simp_all
  then have mem: "195 \<in> set ?t"
    by (intro translate_newlines_mem) simp_all
  have "str_encode UTF8 ?t \<noteq> Inr bs"
  proof
    assume "str_encode UTF8 ?t = Inr bs"
    from str_encode_utf8_longer [OF this mem] len show False by simp
  qed
  moreover have "files (snd (main fp pf w)) golden_path = Some (Data bs)"
    by (simp add: main_succeeds [where fp = fp, OF tk loop dir bs])
  moreover have "map input rs = test_cases" using loop by (rule main_loop_results(1))
  ultimately show "\<exists>rs bs.
         map input rs = test_cases \<and>
         files (snd (main fp pf w)) golden_path = Some (Data bs) \<and>
         str_encode CP1252
           (translate_newlines (linesep pf) (dumps 2 0 (PList (map golden_obj rs)))) = Inr bs \<and>
         str_encode UTF8
           (translate_newlines (linesep pf) (dumps 2 0 (PList (map golden_obj rs)))) \<noteq> Inr bs"
    using cp unfolding document_def results_obj_def by blast
qed

theorem C5_bytes_follow_the_locale_witness:
  "fst (main load_whole posix_latin1 world0) = Inl UnicodeEncodeError \<and>
   files (snd (main load_whole posix_latin1 world0)) golden_path = Some Partial \<and>
   fst (main load_whole windows_cp1252 world0) = Inr () \<and>
   (\<exists>rs bs.
      files (snd (main load_whole windows_cp1252 world0)) golden_path = Some (Data bs) \<and>
      str_encode UTF8
        (translate_newlines [13, 10] (dumps 2 0 (PList (map golden_obj rs)))) \<noteq> Inr bs)"
proof -
  have "preferred_encoding posix_latin1 = Latin1 \<or> preferred_encoding posix_latin1 = ASCII"
    by (simp add: posix_latin1_def)
  moreover
  have "fst (main_loop whole_tok test_cases [] (log (FromPretrained model_name) world0))
                = Inr (map whole_record test_cases)"
    by (simp add: whole_tok_loop_records)
  moreover have "dirname golden_path \<in> dirs world0"
    by (simp add: dirname_golden_path world0_def)
  ultimately have latin1: "fst (main load_whole posix_latin1 world0) = Inl UnicodeEncodeError \<and>
   files (snd (main load_whole posix_latin1 world0)) golden_path = Some Partial"
    using C5_bytes_follow_the_locale [where pf = posix_latin1 and fp = load_whole
        and tok = whole_tok and w = world0 and results = "map whole_record test_cases"]
      load_whole_model
    by blast
  have "preferred_encoding windows_cp1252 = CP1252" "linesep windows_cp1252 = [13, 10]"
    by (simp_all add: windows_cp1252_def)
  with C5_bytes_follow_the_locale [where pf = windows_cp1252 and fp = load_whole and w = world0]
    main_whole_cp1252
  have "\<exists>rs bs.
      files (snd (main load_whole windows_cp1252 world0)) golden_path = Some (Data bs) \<and>
      str_encode UTF8
        (translate_newlines [13, 10] (dumps 2 0 (PList (map golden_obj rs)))) \<noteq> Inr bs"
    by (metis (no_types, lifting))
  with latin1 main_whole_cp1252 show ?thesis by blast
qed

end
